theory Spec2Isabelle
  imports Main "HOL-Library.AList"
begin

section \<open>Event-ticket backend: orders, payments, tickets\<close>

text \<open>
  A shallow embedding of \<^verbatim>\<open>OrdersService\<close> (orders.service.ts), \<^verbatim>\<open>PaymentService\<close>
  (payments.service.ts) and \<^verbatim>\<open>TicketsService\<close> (tickets.service.ts).

  The relational store is a record of tables; a table is an association list from the
  primary key to the row, looked up with \<open>map_of\<close>. \<^verbatim>\<open>repository.save(row)\<close> is
  \<open>AList.update\<close> (TypeORM's save writes the row with that primary key),
  \<^verbatim>\<open>repository.delete({id})\<close> is \<open>AList.delete\<close>. Every service method takes the store and
  returns its result together with the store it leaves behind; an exception is the
  \<open>Inl\<close> of the result, and the store returned with it is what the method had already
  written when it threw. What the outside world decides (the clock, generated
  identifiers, random ticket numbers, whether the payment gateway or the file system
  fails) is an explicit argument. Repository calls themselves are taken not to throw.
  Times are milliseconds as integers.
\<close>

subsection \<open>Enumerations\<close>

text \<open>
  The enum declarations (src/common/enums, ticket.entity) are not part of the sources at
  hand; the members are the ones the services name.
\<close>

text \<open>Modelled from the spec: enum \<^verbatim>\<open>OrderStatus\<close>,
  \<open>{pending, awaiting_payment, paid, cancelled, expired}\<close>.\<close>
datatype OrderStatus = OPending | OAwaitingPayment | OPaid | OCancelled | OExpired

text \<open>Modelled from the spec: enum \<^verbatim>\<open>PaymentStatus\<close>, \<open>{pending, paid, expired, failed}\<close>.\<close>
datatype PaymentStatus = PPending | PPaid | PExpired | PFailed

text \<open>Modelled from the spec: enum \<^verbatim>\<open>XenditWebhookStatus\<close>; the provider's status strings
  \<open>PAID\<close>, \<open>EXPIRED\<close>, \<open>PENDING\<close>, and any other value.\<close>
datatype XenditWebhookStatus = XPaid | XExpired | XPending | XOther string

text \<open>Modelled from the spec: enum \<^verbatim>\<open>TicketStatus\<close>, \<open>{active, used, cancelled}\<close>.\<close>
datatype TicketStatus = TActive | TUsed | TCancelled

text \<open>Modelled from the spec: the event's lifecycle status \<open>draft|published|cancelled\<close>.\<close>
datatype EventStatus = EDraft | EPublished | ECancelled

text \<open>An interpolated value between single quotes, as in \<^verbatim>\<open>'${id}'\<close>.\<close>

definition quoted :: "string \<Rightarrow> string" where
  "quoted str = CHR 0x27 # str @ [CHR 0x27]"

fun orderStatusStr :: "OrderStatus \<Rightarrow> string" where
  "orderStatusStr OPending = ''pending''"
| "orderStatusStr OAwaitingPayment = ''awaiting_payment''"
| "orderStatusStr OPaid = ''paid''"
| "orderStatusStr OCancelled = ''cancelled''"
| "orderStatusStr OExpired = ''expired''"

fun ticketStatusStr :: "TicketStatus \<Rightarrow> string" where
  "ticketStatusStr TActive = ''active''"
| "ticketStatusStr TUsed = ''used''"
| "ticketStatusStr TCancelled = ''cancelled''"

datatype error =
    NotFound string
  | BadRequest string
  | Forbidden string
  | Unauthorized string
  | GatewayError string
  | FabricationError string
  | InternalError string

subsection \<open>Entities and the store\<close>

text \<open>
  Modelled from the spec: the entity classes (user, event, order, payment, ticket
  entities) are not part of the sources at hand; the fields are the ones the services read
  and write. An event carries one availability counter, the \<^verbatim>\<open>quota\<close> column.
\<close>

record User =
  u_name :: "string option"
  u_email :: string

record Event =
  e_title :: string
  e_price :: int
  e_status :: "EventStatus option"
  e_startTime :: "int option"
  e_quota :: int

record Order =
  o_userId :: string
  o_eventId :: string
  o_quantity :: int
  o_unitPrice :: int
  o_totalAmount :: int
  o_status :: OrderStatus
  o_expiredAt :: int

record Payment =
  p_id :: string
  p_referenceId :: string
  p_amount :: int
  p_status :: PaymentStatus
  p_paymentUrl :: string
  p_expiresAt :: int
  p_paidAt :: "int option"
  p_paymentMethod :: "string option"

record Ticket =
  t_ticketNumber :: string
  t_seatNumber :: string
  t_eventId :: string
  t_orderId :: string
  t_attendeeName :: "string option"
  t_attendeeEmail :: "string option"
  t_status :: TicketStatus
  t_createdBy :: string
  t_paidAt :: int
  t_qrCodeUrl :: "string option"
  t_pdfUrl :: "string option"
  t_checkedIn :: bool
  t_checkedInAt :: "int option"
  t_checkedInBy :: "string option"
  t_cancelledAt :: "int option"
  t_notes :: "string option"

datatype EmailKind = OrderCreatedEmail | OrderPaidEmail | OrderCancelledEmail | OrderExpiredEmail

text \<open>
  \<open>payments\<close> is keyed by the order id (the payment's \<^verbatim>\<open>orderId\<close> is unique, and the
  services only ever look a payment up by it). \<open>emails\<close> logs every call of the mail
  service (kind, order id): a dispatch attempt, whether or not delivery succeeds.
  \<open>files\<close> logs the names written to the uploads directory.
\<close>

record db =
  users :: "(string \<times> User) list"
  events :: "(string \<times> Event) list"
  orders :: "(string \<times> Order) list"
  payments :: "(string \<times> Payment) list"
  tickets :: "(string \<times> Ticket) list"
  emails :: "(EmailKind \<times> string) list"
  files :: "string list"

text \<open>What a ticket-fabricating call gets from outside: the clock, the random ticket
  number and the uuid of the \<open>i\<close>-th ticket, and whether writing the \<open>i\<close>-th QR image or
  PDF fails.\<close>

record env =
  now :: int
  ticketNumberAt :: "nat \<Rightarrow> string"
  ticketIdAt :: "nat \<Rightarrow> string"
  qrFails :: "nat \<Rightarrow> bool"
  pdfFails :: "nat \<Rightarrow> bool"

subsection \<open>TicketsService\<close>

text \<open>Decimal rendering of a non-negative integer, as JavaScript's template literal does.\<close>

definition digit :: "nat \<Rightarrow> char" where
  "digit d = char_of (48 + d)"

function showNat :: "nat \<Rightarrow> string" where
  "showNat n = (if n < 10 then [digit n] else showNat (n div 10) @ [digit (n mod 10)])"
  by pat_completeness auto
termination
  by (relation "measure id") auto

declare showNat.simps [simp del]

text \<open>\<^verbatim>\<open>String.fromCharCode\<close>; a HOL character is a byte, which agrees with the UTF-16 code
  unit for codes below 256.\<close>

definition fromCharCode :: "nat \<Rightarrow> char" where
  "fromCharCode n = char_of n"

definition generateSeatNumber :: "nat \<Rightarrow> string" where
  "generateSeatNumber index =
     (let section = fromCharCode (65 + index div 100);
          row = (index mod 100) div 10 + 1;
          seat = index mod 10 + 1
      in section # showNat row @ ''-'' @ showNat seat)"

text \<open>The seat label as the specification words it: the section letter is the
  \<open>i div 100\<close>-th letter after A, the row and the seat are numbers from 1 to 10.\<close>

definition section_letter :: "nat \<Rightarrow> char" where
  "section_letter k = ''ABCDEFGHIJKLMNOPQRSTUVWXYZ'' ! k"

definition one_to_ten :: "nat \<Rightarrow> string" where
  "one_to_ten n = (if n = 10 then ''10'' else [''123456789'' ! (n - 1)])"

definition seat_label_spec :: "nat \<Rightarrow> string" where
  "seat_label_spec i =
     section_letter (i div 100) # one_to_ten ((i mod 100) div 10 + 1) @ ''-'' @ one_to_ten (i mod 10 + 1)"

text \<open>\<^verbatim>\<open>x || null\<close> on a string: the empty string is falsy.\<close>

definition orNull :: "string option \<Rightarrow> string option" where
  "orNull x = (case x of None \<Rightarrow> None | Some v \<Rightarrow> if v = [] then None else Some v)"

definition qrFileName :: "string \<Rightarrow> string" where
  "qrFileName ticketNumber = ''qr-'' @ ticketNumber @ ''.png''"

definition pdfFileName :: "string \<Rightarrow> string" where
  "pdfFileName ticketNumber = ''ticket-'' @ ticketNumber @ ''.pdf''"

definition ticketsOfOrder :: "string \<Rightarrow> db \<Rightarrow> (string \<times> Ticket) list" where
  "ticketsOfOrder orderId s = filter (\<lambda>(k, t). t_orderId t = orderId) (tickets s)"

text \<open>The row built in the body of the loop of \<^verbatim>\<open>generateTicketsForOrder\<close> for index \<open>i\<close>.\<close>

definition newTicket :: "env \<Rightarrow> string \<Rightarrow> Order \<Rightarrow> User \<Rightarrow> nat \<Rightarrow> string \<times> Ticket" where
  "newTicket env orderId order user i =
     (ticketIdAt env i,
      \<lparr> t_ticketNumber = ticketNumberAt env i,
        t_seatNumber = generateSeatNumber i,
        t_eventId = o_eventId order,
        t_orderId = orderId,
        t_attendeeName = orNull (u_name user),
        t_attendeeEmail = orNull (Some (u_email user)),
        t_status = TActive,
        t_createdBy = o_userId order,
        t_paidAt = now env,
        t_qrCodeUrl = Some (qrFileName (ticketNumberAt env i)),
        t_pdfUrl = None,
        t_checkedIn = False,
        t_checkedInAt = None,
        t_checkedInBy = None,
        t_cancelledAt = None,
        t_notes = None \<rparr>)"

text \<open>
  The loop \<^verbatim>\<open>for (let i = 0; i < order.quantity; i++)\<close>, over the indices still to do, with
  the files written and the rows collected so far. A failing QR write throws out of the
  loop (\<open>None\<close>); the images written before stay.
\<close>

fun qrLoop :: "env \<Rightarrow> string \<Rightarrow> Order \<Rightarrow> User \<Rightarrow> nat list \<Rightarrow>
    string list \<Rightarrow> (string \<times> Ticket) list \<Rightarrow> string list \<times> (string \<times> Ticket) list option" where
  "qrLoop env orderId order user [] fs acc = (fs, Some acc)"
| "qrLoop env orderId order user (i # rest) fs acc =
     (if qrFails env i then (fs, None)
      else qrLoop env orderId order user rest
             (fs @ [qrFileName (ticketNumberAt env i)])
             (acc @ [newTicket env orderId order user i]))"

definition withPdf :: "string \<times> Ticket \<Rightarrow> string \<times> Ticket" where
  "withPdf kt = (fst kt, (snd kt)\<lparr> t_pdfUrl := Some (pdfFileName (t_ticketNumber (snd kt))) \<rparr>)"

text \<open>
  \<^verbatim>\<open>generateTicketsForOrder\<close>. The uuids of the new rows are fresh, so the first
  \<^verbatim>\<open>save\<close> appends the rows and the second one rewrites exactly these rows with their
  \<^verbatim>\<open>pdfUrl\<close>. The PDFs are written concurrently (\<^verbatim>\<open>Promise.all\<close>): when one fails the call
  throws after the first save, the other PDFs are written all the same.
\<close>

definition generateTicketsForOrder ::
    "env \<Rightarrow> string \<Rightarrow> db \<Rightarrow> (error + (string \<times> Ticket) list) \<times> db" where
  "generateTicketsForOrder env orderId s =
     (case map_of (orders s) orderId of
        None \<Rightarrow> (Inl (NotFound (''Order with ID '' @ quoted orderId @ '' not found'')), s)
      | Some order \<Rightarrow>
          (case map_of (users s) (o_userId order) of
             None \<Rightarrow> (Inl (InternalError ''Order data is incomplete''), s)
           | Some user \<Rightarrow>
               (case map_of (events s) (o_eventId order) of
                  None \<Rightarrow> (Inl (InternalError ''Order data is incomplete''), s)
                | Some event \<Rightarrow>
                    (let existingTickets = ticketsOfOrder orderId s in
                     if existingTickets \<noteq> [] then (Inr existingTickets, s)
                     else
                       (let idx = [0..<nat (o_quantity order)] in
                        case qrLoop env orderId order user idx (files s) [] of
                          (fs, None) \<Rightarrow>
                            (Inl (FabricationError ''QR code''), s\<lparr> files := fs \<rparr>)
                        | (fs, Some ticketsToCreate) \<Rightarrow>
                            (let written = map (\<lambda>i. pdfFileName (ticketNumberAt env i))
                                             (filter (\<lambda>i. \<not> pdfFails env i) idx)
                             in if list_ex (pdfFails env) idx
                                then (Inl (FabricationError ''PDF''),
                                      s\<lparr> tickets := tickets s @ ticketsToCreate,
                                         files := fs @ written \<rparr>)
                                else (let finalTickets = map withPdf ticketsToCreate
                                      in (Inr finalTickets,
                                          s\<lparr> tickets := tickets s @ finalTickets,
                                             files := fs @ written \<rparr>))))))))"

definition validateTicket :: "string \<Rightarrow> db \<Rightarrow> bool \<times> string" where
  "validateTicket ticketId s =
     (case map_of (tickets s) ticketId of
        None \<Rightarrow> (False, ''Ticket not found'')
      | Some ticket \<Rightarrow>
          if t_status ticket \<noteq> TActive
          then (False, ''Ticket is '' @ ticketStatusStr (t_status ticket))
          else if t_checkedIn ticket then (False, ''Ticket has already been used'')
          else (True, ''Ticket is valid''))"

definition checkInTicket :: "int \<Rightarrow> string \<Rightarrow> string \<Rightarrow> db \<Rightarrow> (error + Ticket) \<times> db" where
  "checkInTicket nowT ticketId checkedInBy s =
     (let validation = validateTicket ticketId s in
      if \<not> fst validation then (Inl (BadRequest (snd validation)), s)
      else
        (case map_of (tickets s) ticketId of
           None \<Rightarrow> (Inl (InternalError ''TypeError''), s)
         | Some ticket \<Rightarrow>
             (let saved = ticket\<lparr> t_checkedIn := True,
                                  t_checkedInAt := Some nowT,
                                  t_checkedInBy := Some checkedInBy,
                                  t_status := TUsed \<rparr>
              in (Inr saved, s\<lparr> tickets := AList.update ticketId saved (tickets s) \<rparr>))))"

text \<open>\<^verbatim>\<open>batchCancelTickets\<close>: one \<^verbatim>\<open>UPDATE ... WHERE id IN (ids)\<close>.\<close>

definition batchCancelTickets :: "int \<Rightarrow> string list \<Rightarrow> string \<Rightarrow> db \<Rightarrow> db" where
  "batchCancelTickets nowT ticketIds reason s =
     (if ticketIds = [] then s
      else s\<lparr> tickets :=
             map (\<lambda>(k, t). if k \<in> set ticketIds
                            then (k, t\<lparr> t_status := TCancelled,
                                       t_cancelledAt := Some nowT,
                                       t_notes := Some reason \<rparr>)
                            else (k, t))
                 (tickets s) \<rparr>)"

subsection \<open>PaymentService.create\<close>

text \<open>What \<^verbatim>\<open>OrdersService.create\<close> gets from outside: the clock, the uuids the database
  gives the new order and payment rows, and the gateway's answer to \<^verbatim>\<open>createInvoice\<close>
  (\<open>None\<close>: the call throws).\<close>

text \<open>Of the normalised invoice (\<^verbatim>\<open>XenditInvoiceResponse\<close>) the fields
  \<^verbatim>\<open>PaymentService.create\<close> reads: \<^verbatim>\<open>id\<close>, \<^verbatim>\<open>invoice_url\<close>, \<^verbatim>\<open>expiry_date\<close>.\<close>

record Invoice =
  inv_id :: string
  inv_url :: string
  inv_expiry :: "int option"

record create_env =
  ce_now :: int
  ce_orderId :: string
  ce_paymentId :: string
  ce_invoice :: "Invoice option"

definition payments_create :: "create_env \<Rightarrow> string \<Rightarrow> string \<Rightarrow> db \<Rightarrow> (error + Payment) \<times> db" where
  "payments_create cenv orderId userId s =
     (case map_of (orders s) orderId of
        None \<Rightarrow> (Inl (NotFound (''Order with ID '' @ quoted orderId @ '' not found'')), s)
      | Some order \<Rightarrow>
          (case map_of (payments s) orderId of
             Some existingPayment \<Rightarrow> (Inr existingPayment, s)
           | None \<Rightarrow>
               (case ce_invoice cenv of
                  None \<Rightarrow> (Inl (GatewayError ''Failed to create Xendit invoice''), s)
                | Some xenditInvoice \<Rightarrow>
                    (let expiresAt = (case inv_expiry xenditInvoice of
                                        Some d \<Rightarrow> d
                                      | None \<Rightarrow> ce_now cenv + 3600 * 1000);
                         payment = \<lparr> p_id = ce_paymentId cenv,
                                     p_referenceId = inv_id xenditInvoice,
                                     p_amount = o_totalAmount order,
                                     p_status = PPending,
                                     p_paymentUrl = inv_url xenditInvoice,
                                     p_expiresAt = expiresAt,
                                     p_paidAt = None,
                                     p_paymentMethod = None \<rparr>
                     in (Inr payment,
                         s\<lparr> payments := AList.update orderId payment (payments s) \<rparr>)))))"

subsection \<open>OrdersService\<close>

text \<open>Modelled from the spec: the request class \<^verbatim>\<open>CreateOrderDto\<close> is not part of the
  sources at hand; \<^verbatim>\<open>create\<close> reads \<open>{eventId, quantity}\<close> from it. The quantity is a
  JavaScript number, taken to be an integer.\<close>

record CreateOrderDto =
  dto_eventId :: string
  dto_quantity :: int

definition showInt :: "int \<Rightarrow> string" where
  "showInt i = (if i < 0 then ''-'' @ showNat (nat (- i)) else showNat (nat i))"

definition create ::
    "create_env \<Rightarrow> string \<Rightarrow> CreateOrderDto \<Rightarrow> db \<Rightarrow> (error + string \<times> Order \<times> Payment) \<times> db" where
  "create cenv userId createOrderDto s =
     (let eventId = dto_eventId createOrderDto;
          quantity = dto_quantity createOrderDto
      in case map_of (events s) eventId of
           None \<Rightarrow> (Inl (NotFound (''Event with ID '' @ quoted eventId @ '' not found'')), s)
         | Some event \<Rightarrow>
             if (case e_status event of None \<Rightarrow> EPublished | Some st \<Rightarrow> st) \<noteq> EPublished
             then (Inl (BadRequest ''Event is not available for booking''), s)
             else if (case e_startTime event of None \<Rightarrow> False | Some t \<Rightarrow> t < ce_now cenv)
             then (Inl (BadRequest ''Event has already passed''), s)
             else if e_quota event < quantity
             then (Inl (BadRequest (''Only '' @ showInt (e_quota event) @ '' tickets available'')), s)
             else
               (let unitPrice = e_price event;
                    savedOrder = \<lparr> o_userId = userId,
                                    o_eventId = eventId,
                                    o_quantity = quantity,
                                    o_unitPrice = unitPrice,
                                    o_totalAmount = unitPrice * quantity,
                                    o_status = OPending,
                                    o_expiredAt = ce_now cenv + 3600 * 1000 \<rparr>;
                    oid = ce_orderId cenv;
                    s1 = s\<lparr> orders := AList.update oid savedOrder (orders s) \<rparr>;
                    event1 = event\<lparr> e_quota := e_quota event - quantity \<rparr>;
                    s2 = s1\<lparr> events := AList.update eventId event1 (events s1) \<rparr>
                in case payments_create cenv oid userId s2 of
                     (Inl paymentError, s3) \<Rightarrow>
                       (let event2 = event1\<lparr> e_quota := e_quota event1 + quantity \<rparr>;
                            s4 = s3\<lparr> events := AList.update eventId event2 (events s3) \<rparr>;
                            s5 = s4\<lparr> orders := AList.delete oid (orders s4) \<rparr>
                        in (Inl (BadRequest ''Failed to create invoice/payment''), s5))
                   | (Inr paymentData, s3) \<Rightarrow>
                       (let s4 = (case map_of (users s3) userId of
                                    None \<Rightarrow> s3
                                  | Some user \<Rightarrow>
                                      s3\<lparr> emails := emails s3 @ [(OrderCreatedEmail, oid)] \<rparr>)
                        in (Inr (oid, savedOrder, paymentData), s4))))"

definition restoreQuota :: "Order \<Rightarrow> db \<Rightarrow> db" where
  "restoreQuota order s =
     (case map_of (events s) (o_eventId order) of
        None \<Rightarrow> s
      | Some event \<Rightarrow>
          s\<lparr> events := AList.update (o_eventId order)
                          (event\<lparr> e_quota := e_quota event + o_quantity order \<rparr>) (events s) \<rparr>)"

text \<open>
  The block of \<^verbatim>\<open>updateStatus\<close> under \<^verbatim>\<open>status === PAID && oldStatus !== PAID\<close>. \<open>user\<close>,
  \<open>event\<close> and \<open>orderTickets\<close> are the relations loaded with the order at the start of
  \<^verbatim>\<open>updateStatus\<close>. A throwing ticket generation is caught by the outer \<^verbatim>\<open>try\<close>, which
  skips the e-mail.
\<close>

definition postPaid ::
    "env \<Rightarrow> string \<Rightarrow> User option \<Rightarrow> Event option \<Rightarrow> (string \<times> Ticket) list \<Rightarrow> db \<Rightarrow> db" where
  "postPaid env oid user event orderTickets s =
     (case (if orderTickets = [] then generateTicketsForOrder env oid s
            else (Inr orderTickets, s)) of
        (Inl e, s') \<Rightarrow> s'
      | (Inr tks, s') \<Rightarrow>
          (case user of
             None \<Rightarrow> s'
           | Some u \<Rightarrow>
               (case event of
                  None \<Rightarrow> s'
                | Some ev \<Rightarrow> s'\<lparr> emails := emails s' @ [(OrderPaidEmail, oid)] \<rparr>)))"

definition updateStatus :: "env \<Rightarrow> string \<Rightarrow> OrderStatus \<Rightarrow> db \<Rightarrow> (error + Order) \<times> db" where
  "updateStatus env oid status s =
     (case map_of (orders s) oid of
        None \<Rightarrow> (Inl (NotFound (''Order with ID '' @ quoted oid @ '' not found'')), s)
      | Some order \<Rightarrow>
          if o_status order = status then (Inr order, s)
          else
            (let oldStatus = o_status order;
                 user = map_of (users s) (o_userId order);
                 event = map_of (events s) (o_eventId order);
                 orderTickets = ticketsOfOrder oid s;
                 savedOrder = order\<lparr> o_status := status \<rparr>;
                 s1 = (if (status = OCancelled \<or> status = OExpired) \<and>
                          (oldStatus = OPending \<or> oldStatus = OAwaitingPayment)
                       then (let sa = restoreQuota order s
                             in if orderTickets \<noteq> []
                                then batchCancelTickets (now env) (map fst orderTickets)
                                       (''Order '' @ orderStatusStr status) sa
                                else sa)
                       else s);
                 s2 = s1\<lparr> orders := AList.update oid savedOrder (orders s1) \<rparr>;
                 s3 = (if status = OPaid \<and> oldStatus \<noteq> OPaid
                       then postPaid env oid user event orderTickets s2
                       else s2)
             in (Inr savedOrder, s3)))"

definition cancel :: "env \<Rightarrow> string \<Rightarrow> string \<Rightarrow> db \<Rightarrow> (error + string) \<times> db" where
  "cancel env oid userId s =
     (case map_of (orders s) oid of
        None \<Rightarrow> (Inl (NotFound (''Order with ID '' @ quoted oid @ '' not found'')), s)
      | Some order \<Rightarrow>
          if o_userId order \<noteq> userId
          then (Inl (Forbidden ''You do not have permission to cancel this order''), s)
          else if o_status order \<noteq> OPending \<and> o_status order \<noteq> OAwaitingPayment
          then (Inl (BadRequest (''Cannot cancel order with status '' @
                                 quoted (orderStatusStr (o_status order)))), s)
          else if (case map_of (payments s) oid of
                     None \<Rightarrow> False
                   | Some payment \<Rightarrow> p_status payment = PPaid)
          then (Inl (BadRequest ''Cannot cancel a paid order''), s)
          else
            (case updateStatus env oid OCancelled s of
               (Inl e, s1) \<Rightarrow> (Inl e, s1)
             | (Inr saved, s1) \<Rightarrow>
                 (let s2 = (case map_of (users s) (o_userId order) of
                              None \<Rightarrow> s1
                            | Some user \<Rightarrow>
                                (case map_of (events s) (o_eventId order) of
                                   None \<Rightarrow> s1
                                 | Some event \<Rightarrow>
                                     s1\<lparr> emails := emails s1 @ [(OrderCancelledEmail, oid)] \<rparr>))
                  in (Inr ''Order cancelled successfully'', s2))))"

text \<open>One iteration of the loop of \<^verbatim>\<open>expireOrders\<close>; \<open>s0\<close> is the store the orders and their
  relations were read from. An error of \<^verbatim>\<open>updateStatus\<close> is caught and the loop goes on.\<close>

definition expireOne :: "env \<Rightarrow> db \<Rightarrow> string \<times> Order \<Rightarrow> db \<Rightarrow> db" where
  "expireOne env s0 ko s =
     (case updateStatus env (fst ko) OExpired s of
        (Inl e, s') \<Rightarrow> s'
      | (Inr saved, s') \<Rightarrow>
          (case map_of (users s0) (o_userId (snd ko)) of
             None \<Rightarrow> s'
           | Some user \<Rightarrow>
               (case map_of (events s0) (o_eventId (snd ko)) of
                  None \<Rightarrow> s'
                | Some event \<Rightarrow> s'\<lparr> emails := emails s' @ [(OrderExpiredEmail, fst ko)] \<rparr>)))"

definition expireOrders :: "env \<Rightarrow> db \<Rightarrow> nat \<times> db" where
  "expireOrders env s =
     (let expiredOrders = filter (\<lambda>(k, row). o_status row = OPending \<and> o_expiredAt row < now env) (orders s)
      in (length expiredOrders, foldl (\<lambda>st ko. expireOne env s ko st) s expiredOrders))"

subsection \<open>PaymentService.processWebhook\<close>

record PaymentWebhookDto =
  wh_id :: string
  wh_external_id :: string
  wh_status :: XenditWebhookStatus
  wh_payment_method :: "string option"
  wh_paid_at :: "string option"

definition mapPaymentStatusToOrderStatus :: "PaymentStatus \<Rightarrow> OrderStatus" where
  "mapPaymentStatusToOrderStatus paymentStatus =
     (case paymentStatus of
        PPaid \<Rightarrow> OPaid
      | PExpired \<Rightarrow> OExpired
      | PFailed \<Rightarrow> OCancelled
      | PPending \<Rightarrow> OPending)"

text \<open>The regular expression
  \<^verbatim>\<open>/^[0-9a-f]{8}-[0-9a-f]{4}-[0-9a-f]{4}-[0-9a-f]{4}-[0-9a-f]{12}$/i\<close>: groups of
  hexadecimal digits of the given lengths, separated by hyphens.\<close>

definition is_hex :: "char \<Rightarrow> bool" where
  "is_hex c \<longleftrightarrow> c \<in> set ''0123456789abcdefABCDEF''"

fun hexGroups :: "nat list \<Rightarrow> string \<Rightarrow> bool" where
  "hexGroups [] str = (str = [])"
| "hexGroups [n] str = (length str = n \<and> list_all is_hex str)"
| "hexGroups (n # ns) str =
     (n < length str \<and> list_all is_hex (take n str) \<and> str ! n = CHR ''-'' \<and>
      hexGroups ns (drop (Suc n) str))"

definition uuidRegex_test :: "string \<Rightarrow> bool" where
  "uuidRegex_test str = hexGroups [8, 4, 4, 4, 12] str"

definition orUnknown :: "string option \<Rightarrow> string" where
  "orUnknown m = (case m of None \<Rightarrow> ''Unknown'' | Some v \<Rightarrow> if v = [] then ''Unknown'' else v)"

text \<open>The \<^verbatim>\<open>switch\<close> on the payload's status; \<open>None\<close> is the \<^verbatim>\<open>default\<close> branch, which
  logs and returns.\<close>

definition paymentStatusOfWebhook :: "XenditWebhookStatus \<Rightarrow> PaymentStatus option" where
  "paymentStatusOfWebhook st =
     (case st of
        XPaid \<Rightarrow> Some PPaid
      | XExpired \<Rightarrow> Some PExpired
      | XPending \<Rightarrow> Some PPending
      | XOther v \<Rightarrow> None)"

text \<open>The block \<^verbatim>\<open>if (payment) { ... save(payment) }\<close> of \<^verbatim>\<open>processWebhook\<close>.\<close>

definition refreshPayment :: "int \<Rightarrow> PaymentWebhookDto \<Rightarrow> PaymentStatus \<Rightarrow> db \<Rightarrow> db" where
  "refreshPayment nowT payload newPaymentStatus s =
     (case map_of (payments s) (wh_external_id payload) of
        None \<Rightarrow> s
      | Some payment \<Rightarrow>
          (let payment1 = payment\<lparr> p_status := newPaymentStatus \<rparr>;
               payment2 = (if newPaymentStatus = PPaid
                           then payment1\<lparr> p_paidAt := Some nowT,
                                  p_paymentMethod := Some (orUnknown (wh_payment_method payload)) \<rparr>
                           else payment1)
           in s\<lparr> payments := AList.update (wh_external_id payload) payment2 (payments s) \<rparr>))"

text \<open>
  \<open>env\<close> serves the call of \<^verbatim>\<open>updateStatus\<close>, \<open>env2\<close> the call of
  \<^verbatim>\<open>generateTicketsForOrder\<close> that follows it for a paid invoice (its error is caught).
\<close>

definition processWebhook ::
    "string \<Rightarrow> env \<Rightarrow> env \<Rightarrow> PaymentWebhookDto \<Rightarrow> string \<Rightarrow> db \<Rightarrow> (error + unit) \<times> db" where
  "processWebhook webhookToken env env2 payload callbackToken s =
     (if callbackToken \<noteq> webhookToken then (Inl (Unauthorized ''Invalid token''), s)
      else if \<not> uuidRegex_test (wh_external_id payload) then (Inr (), s)
      else
        (case paymentStatusOfWebhook (wh_status payload) of
           None \<Rightarrow> (Inr (), s)
         | Some newPaymentStatus \<Rightarrow>
             (case map_of (orders s) (wh_external_id payload) of
                None \<Rightarrow> (Inr (), s)
              | Some order \<Rightarrow>
                  (let s1 = refreshPayment (now env) payload newPaymentStatus s;
                       newOrderStatus = mapPaymentStatusToOrderStatus newPaymentStatus
                   in case updateStatus env (wh_external_id payload) newOrderStatus s1 of
                        (Inl e, s2) \<Rightarrow> (Inl e, s2)
                      | (Inr saved, s2) \<Rightarrow>
                          if newPaymentStatus = PPaid
                          then (Inr (), snd (generateTicketsForOrder env2 (wh_external_id payload) s2))
                          else (Inr (), s2)))))"

subsection \<open>Sequences of operations\<close>

datatype op =
    OpCreate create_env string CreateOrderDto
  | OpCancel env string string
  | OpWebhook env env PaymentWebhookDto string
  | OpSweep env

fun step :: "string \<Rightarrow> db \<Rightarrow> op \<Rightarrow> db" where
  "step tok s (OpCreate cenv userId dto) = snd (create cenv userId dto s)"
| "step tok s (OpCancel env oid userId) = snd (cancel env oid userId s)"
| "step tok s (OpWebhook env env2 payload callbackToken) =
     snd (processWebhook tok env env2 payload callbackToken s)"
| "step tok s (OpSweep env) = snd (expireOrders env s)"

definition run :: "string \<Rightarrow> op list \<Rightarrow> db \<Rightarrow> db" where
  "run tok ops s = foldl (step tok) s ops"

subsection \<open>The quota ledger\<close>

text \<open>
  An order holds inventory of its event while it is in a pre-payment status; \<open>held\<close> is
  the inventory held by the order rows for one event. \<open>quota_inv Q0\<close> says that order
  quantities are not negative and that for every event the counter is not negative and
  the counter plus the held inventory does not exceed \<open>Q0\<close> of the event, its original
  quota.
\<close>

definition prePayment :: "OrderStatus \<Rightarrow> bool" where
  "prePayment st \<longleftrightarrow> st = OPending \<or> st = OAwaitingPayment"

definition reserved :: "string \<Rightarrow> Order \<Rightarrow> int" where
  "reserved eventId row =
     (if o_eventId row = eventId \<and> prePayment (o_status row) then o_quantity row else 0)"

definition held :: "(string \<times> Order) list \<Rightarrow> string \<Rightarrow> int" where
  "held rows eventId = sum_list (map (\<lambda>kr. reserved eventId (snd kr)) rows)"

definition quota_inv :: "(string \<Rightarrow> int) \<Rightarrow> db \<Rightarrow> bool" where
  "quota_inv Q0 s \<longleftrightarrow>
     list_all (\<lambda>kr. 0 \<le> o_quantity (snd kr)) (orders s) \<and>
     list_all (\<lambda>eventId.
                 case map_of (events s) eventId of
                   None \<Rightarrow> True
                 | Some event \<Rightarrow>
                     0 \<le> e_quota event \<and>
                     e_quota event + held (orders s) eventId \<le> Q0 eventId)
              (map fst (events s))"

text \<open>The order operations of the quota invariant: create, cancel, a webhook reporting
  EXPIRED, and the expiry sweep.\<close>

fun order_operation :: "op \<Rightarrow> bool" where
  "order_operation (OpCreate cenv userId dto) = True"
| "order_operation (OpCancel env oid userId) = True"
| "order_operation (OpWebhook env env2 payload callbackToken) = (wh_status payload = XExpired)"
| "order_operation (OpSweep env) = True"

text \<open>\<^verbatim>\<open>create\<close> does not look at the sign of the quantity it is given; this says that an
  operation, if it is a create, asks for a quantity that is not negative.\<close>

fun quantity_not_negative :: "op \<Rightarrow> bool" where
  "quantity_not_negative (OpCreate cenv userId dto) = (0 \<le> dto_quantity dto)"
| "quantity_not_negative (OpCancel env oid userId) = True"
| "quantity_not_negative (OpWebhook env env2 payload callbackToken) = True"
| "quantity_not_negative (OpSweep env) = True"

text \<open>The inventory of one event that a sweep at time \<open>nowT\<close> finds to release: the
  quantities of the event's pending orders whose payment deadline has passed.\<close>

definition sweepable :: "int \<Rightarrow> string \<Rightarrow> Order \<Rightarrow> int" where
  "sweepable nowT eventId row =
     (if o_status row = OPending \<and> o_expiredAt row < nowT \<and> o_eventId row = eventId
      then o_quantity row else 0)"

definition released_by_sweep :: "int \<Rightarrow> string \<Rightarrow> (string \<times> Order) list \<Rightarrow> int" where
  "released_by_sweep nowT eventId rows = sum_list (map (\<lambda>kr. sweepable nowT eventId (snd kr)) rows)"

subsection \<open>A small store to run the services on\<close>

definition demo_env :: "int \<Rightarrow> env" where
  "demo_env t = \<lparr> now = t,
                  ticketNumberAt = (\<lambda>i. ''TKT-'' @ showNat i),
                  ticketIdAt = (\<lambda>i. ''ticket-'' @ showNat i),
                  qrFails = (\<lambda>i. False),
                  pdfFails = (\<lambda>i. False) \<rparr>"

definition demo_user :: User where
  "demo_user = \<lparr> u_name = Some ''Ada'', u_email = ''ada@example.com'' \<rparr>"

definition demo_event :: "int \<Rightarrow> Event" where
  "demo_event q = \<lparr> e_title = ''Concert'', e_price = 50, e_status = Some EPublished,
                     e_startTime = Some 100000000, e_quota = q \<rparr>"

definition demo_oid :: string where
  "demo_oid = ''0a000000-0000-4000-8000-00000000000F''"

definition demo_order :: "OrderStatus \<Rightarrow> Order" where
  "demo_order st = \<lparr> o_userId = ''u1'', o_eventId = ''e1'', o_quantity = 3, o_unitPrice = 50,
                      o_totalAmount = 150, o_status = st, o_expiredAt = 3601000 \<rparr>"

definition demo_payment :: "PaymentStatus \<Rightarrow> Payment" where
  "demo_payment st = \<lparr> p_id = ''p1'', p_referenceId = ''inv-1'', p_amount = 150, p_status = st,
                        p_paymentUrl = ''https://pay.example/inv-1'', p_expiresAt = 3601000,
                        p_paidAt = (if st = PPaid then Some 2000 else None),
                        p_paymentMethod = (if st = PPaid then Some ''BANK'' else None) \<rparr>"

definition demo_ticket :: "TicketStatus \<Rightarrow> bool \<Rightarrow> Ticket" where
  "demo_ticket st used =
     \<lparr> t_ticketNumber = ''TKT-A'', t_seatNumber = ''A1-1'', t_eventId = ''e1'',
       t_orderId = demo_oid, t_attendeeName = Some ''Ada'',
       t_attendeeEmail = Some ''ada@example.com'', t_status = st, t_createdBy = ''u1'',
       t_paidAt = 2000, t_qrCodeUrl = Some ''qr-TKT-A.png'', t_pdfUrl = Some ''ticket-TKT-A.pdf'',
       t_checkedIn = used, t_checkedInAt = None, t_checkedInBy = None,
       t_cancelledAt = None, t_notes = None \<rparr>"

text \<open>One user, one event with 7 places left, one order of 3 places in the given status
  with its payment, and the given tickets.\<close>

definition demo_db :: "OrderStatus \<Rightarrow> PaymentStatus \<Rightarrow> (string \<times> Ticket) list \<Rightarrow> db" where
  "demo_db ost pst tks =
     \<lparr> users = [(''u1'', demo_user)],
       events = [(''e1'', demo_event 7)],
       orders = [(demo_oid, demo_order ost)],
       payments = [(demo_oid, demo_payment pst)],
       tickets = tks,
       emails = [],
       files = [] \<rparr>"

definition demo_payload :: "XenditWebhookStatus \<Rightarrow> PaymentWebhookDto" where
  "demo_payload st = \<lparr> wh_id = ''inv-1'', wh_external_id = demo_oid, wh_status = st,
                        wh_payment_method = Some ''BANK'', wh_paid_at = None \<rparr>"

text \<open>The store before any order: one user and one event with 10 places.\<close>

definition empty_db :: db where
  "empty_db = \<lparr> users = [(''u1'', demo_user)], events = [(''e1'', demo_event 10)], orders = [],
                payments = [], tickets = [], emails = [], files = [] \<rparr>"

definition demo_create_env :: "int \<Rightarrow> string \<Rightarrow> Invoice option \<Rightarrow> create_env" where
  "demo_create_env t oid answer = \<lparr> ce_now = t, ce_orderId = oid, ce_paymentId = ''p-'' @ oid,
                                     ce_invoice = answer \<rparr>"

definition demo_invoice :: Invoice where
  "demo_invoice = \<lparr> inv_id = ''inv-9'', inv_url = ''https://pay.example/inv-9'',
                    inv_expiry = None \<rparr>"

text \<open>A run on \<open>demo_db OPending PPending []\<close>: a second order of 4 places is created,
  the first order is cancelled by its owner, the provider reports the second order's
  invoice expired, a third order of 5 places is created and later swept.\<close>

definition demo_oid2 :: string where
  "demo_oid2 = ''0b000000-0000-4000-8000-000000000002''"

definition demo_oid3 :: string where
  "demo_oid3 = ''0c000000-0000-4000-8000-000000000003''"

definition demo_ops :: "op list" where
  "demo_ops =
     [OpCreate (demo_create_env 1000 demo_oid2 (Some demo_invoice)) ''u1''
        \<lparr> dto_eventId = ''e1'', dto_quantity = 4 \<rparr>,
      OpCancel (demo_env 2000) demo_oid ''u1'',
      OpWebhook (demo_env 3000) (demo_env 3000)
        ((demo_payload XExpired)\<lparr> wh_external_id := demo_oid2 \<rparr>) ''secret'',
      OpCreate (demo_create_env 5000 demo_oid3 (Some demo_invoice)) ''u1''
        \<lparr> dto_eventId = ''e1'', dto_quantity = 5 \<rparr>,
      OpSweep (demo_env 99999999)]"

text \<open>A create that asks for \<open>-2\<close> places, on the store before any order.\<close>

definition demo_negative_ops :: "op list" where
  "demo_negative_ops =
     [OpCreate (demo_create_env 1000 demo_oid2 (Some demo_invoice)) ''u1''
        \<lparr> dto_eventId = ''e1'', dto_quantity = - 2 \<rparr>]"

text \<open>A run on \<open>demo_db OPending PPending []\<close>: the provider reports the invoice paid,
  then reports it pending, then the owner cancels the order.\<close>

definition demo_unpay_ops :: "op list" where
  "demo_unpay_ops =
     [OpWebhook (demo_env 5000) (demo_env 5000) (demo_payload XPaid) ''secret'',
      OpWebhook (demo_env 6000) (demo_env 6000) (demo_payload XPending) ''secret'',
      OpCancel (demo_env 7000) demo_oid ''u1'']"

section \<open>Properties\<close>

subsection \<open>Seat labels\<close>

lemma section_letter_table: "\<forall>k \<in> set [0..<26]. fromCharCode (65 + k) = section_letter k"
  by code_simp

lemma one_to_ten_table: "\<forall>r \<in> set [1..<11]. showNat r = one_to_ten r"
  by code_simp

lemma generateSeatNumber_spec:
  assumes "i < 2600"
  shows "generateSeatNumber i = seat_label_spec i"
proof -
  have "i div 100 < 26" using assms by simp
  then have a: "fromCharCode (65 + i div 100) = section_letter (i div 100)"
    using section_letter_table by simp
  have "(i mod 100) div 10 + 1 \<in> set [1..<11]" by simp
  then have b: "showNat ((i mod 100) div 10 + 1) = one_to_ten ((i mod 100) div 10 + 1)"
    using one_to_ten_table by blast
  have "i mod 10 + 1 \<in> set [1..<11]" by simp
  then have c: "showNat (i mod 10 + 1) = one_to_ten (i mod 10 + 1)"
    using one_to_ten_table by blast
  show ?thesis
    unfolding generateSeatNumber_def seat_label_spec_def Let_def a b c ..
qed

text \<open>
  C9. The seat label of ticket index \<open>i\<close> is the section letter \<open>'A' + i div 100\<close>, the
  row \<open>(i mod 100) div 10 + 1\<close>, a hyphen and the seat \<open>i mod 10 + 1\<close>: for the indices
  whose section is one of the letters A to Z, \<^verbatim>\<open>generateSeatNumber\<close> computes the label the
  specification words; the indices 0, 1, 2 give A1-1, A1-2, A1-3.
\<close>

theorem seat_label_of_index:
  "(i < 2600 \<longrightarrow> generateSeatNumber i = seat_label_spec i) \<and>
   generateSeatNumber 0 = ''A1-1'' \<and> generateSeatNumber 1 = ''A1-2'' \<and>
   generateSeatNumber 2 = ''A1-3''"
proof -
  have "generateSeatNumber 0 = ''A1-1''" by code_simp
  moreover have "generateSeatNumber 1 = ''A1-2''" by code_simp
  moreover have "generateSeatNumber 2 = ''A1-3''" by code_simp
  ultimately show ?thesis using generateSeatNumber_spec by blast
qed

theorem seat_label_of_index_witness:
  "(257::nat) < 2600 \<and> generateSeatNumber 257 = seat_label_spec 257 \<and>
   seat_label_spec 257 = ''C6-8''"
proof -
  have "seat_label_spec 257 = ''C6-8''" by code_simp
  then show ?thesis using seat_label_of_index [of 257] by simp
qed

subsection \<open>Webhook authentication\<close>

text \<open>
  C6. A webhook whose callback token is not the configured token is rejected with
  Unauthorized, whatever the payload, and the store is left as it was: no payment update,
  no order status change, no ticket.
\<close>

theorem webhook_invalid_token:
  "callbackToken \<noteq> webhookToken \<Longrightarrow>
   processWebhook webhookToken env env2 payload callbackToken s =
     (Inl (Unauthorized ''Invalid token''), s)"
  by (simp add: processWebhook_def)

theorem webhook_invalid_token_witness:
  "''guess'' \<noteq> ''secret'' \<and>
   processWebhook ''secret'' (demo_env 5000) (demo_env 5000) (demo_payload XPaid) ''guess''
       (demo_db OPending PPending []) =
     (Inl (Unauthorized ''Invalid token''), demo_db OPending PPending [])"
  using webhook_invalid_token [of "''guess''" "''secret''" "demo_env 5000" "demo_env 5000"
      "demo_payload XPaid" "demo_db OPending PPending []"]
  by simp

subsection \<open>Cancelling\<close>

text \<open>
  C7, as the code has it. Cancelling an order whose payment is paid fails and leaves the
  store as it was: the order keeps its status, no quota is released and no ticket is
  cancelled. The error is BadRequest when the caller is the owner of the order (from the
  status check, or from the check of the paid payment); it is Forbidden when the caller
  is not the owner, because the ownership check comes first.
\<close>

theorem cancel_paid_rejected:
  assumes "map_of (orders s) oid = Some order"
      and "map_of (payments s) oid = Some payment"
      and "p_status payment = PPaid"
  shows "cancel env oid userId s =
           (Inl (if o_userId order \<noteq> userId
                 then Forbidden ''You do not have permission to cancel this order''
                 else BadRequest
                        (if o_status order = OPending \<or> o_status order = OAwaitingPayment
                         then ''Cannot cancel a paid order''
                         else ''Cannot cancel order with status '' @
                                quoted (orderStatusStr (o_status order)))),
            s)"
  using assms by (simp add: cancel_def)

theorem cancel_paid_rejected_witness:
  "map_of (orders (demo_db OPaid PPaid [])) demo_oid = Some (demo_order OPaid) \<and>
   map_of (payments (demo_db OPaid PPaid [])) demo_oid = Some (demo_payment PPaid) \<and>
   p_status (demo_payment PPaid) = PPaid \<and>
   cancel (demo_env 5000) demo_oid ''u1'' (demo_db OPaid PPaid []) =
     (Inl (BadRequest (''Cannot cancel order with status '' @ quoted ''paid'')),
      demo_db OPaid PPaid []) \<and>
   cancel (demo_env 5000) demo_oid ''u2'' (demo_db OPaid PPaid []) =
     (Inl (Forbidden ''You do not have permission to cancel this order''), demo_db OPaid PPaid [])"
proof -
  have h: "map_of (orders (demo_db OPaid PPaid [])) demo_oid = Some (demo_order OPaid)"
    "map_of (payments (demo_db OPaid PPaid [])) demo_oid = Some (demo_payment PPaid)"
    "p_status (demo_payment PPaid) = PPaid"
    by (simp_all add: demo_db_def demo_payment_def)
  have v: "o_status (demo_order OPaid) = OPaid" "o_userId (demo_order OPaid) = ''u1''"
    by (simp_all add: demo_order_def)
  from cancel_paid_rejected [OF h, of "demo_env 5000" "''u1''"] v
  have a: "cancel (demo_env 5000) demo_oid ''u1'' (demo_db OPaid PPaid []) =
     (Inl (BadRequest (''Cannot cancel order with status '' @ quoted ''paid'')),
      demo_db OPaid PPaid [])"
    by simp
  from cancel_paid_rejected [OF h, of "demo_env 5000" "''u2''"] v
  have b: "cancel (demo_env 5000) demo_oid ''u2'' (demo_db OPaid PPaid []) =
     (Inl (Forbidden ''You do not have permission to cancel this order''), demo_db OPaid PPaid [])"
    by simp
  from h a b show ?thesis by blast
qed

text \<open>A caller who does not own the order gets Forbidden, not BadRequest.\<close>

theorem cancel_paid_counterexample:
  "map_option p_status (map_of (payments (demo_db OPaid PPaid [])) demo_oid) = Some PPaid \<and>
   fst (cancel (demo_env 5000) demo_oid ''u2'' (demo_db OPaid PPaid [])) =
     Inl (Forbidden ''You do not have permission to cancel this order'')"
  by code_simp

subsection \<open>Checking a ticket in\<close>

text \<open>
  C10. A ticket is checked in at most once. For an existing ticket, \<^verbatim>\<open>checkInTicket\<close>
  succeeds when the ticket is active and not checked in: it then marks the ticket checked
  in, records time and actor, sets the status to used and saves the row, and any later
  check-in of that ticket fails with BadRequest and changes nothing. On a ticket that is
  checked in, used or cancelled it fails with BadRequest and leaves the store as it was.
\<close>

theorem check_in_at_most_once:
  assumes "map_of (tickets s) ticketId = Some t"
  shows "(t_status t = TActive \<and> \<not> t_checkedIn t \<longrightarrow>
            checkInTicket n ticketId who s =
              (Inr (t\<lparr> t_checkedIn := True, t_checkedInAt := Some n,
                        t_checkedInBy := Some who, t_status := TUsed \<rparr>),
               s\<lparr> tickets := AList.update ticketId
                     (t\<lparr> t_checkedIn := True, t_checkedInAt := Some n,
                          t_checkedInBy := Some who, t_status := TUsed \<rparr>) (tickets s) \<rparr>) \<and>
            checkInTicket n' ticketId who' (snd (checkInTicket n ticketId who s)) =
              (Inl (BadRequest ''Ticket is used''), snd (checkInTicket n ticketId who s))) \<and>
         (t_checkedIn t \<or> t_status t = TUsed \<or> t_status t = TCancelled \<longrightarrow>
            (\<exists>msg. checkInTicket n ticketId who s = (Inl (BadRequest msg), s)))"
  using assms
  by (auto simp add: checkInTicket_def validateTicket_def Let_def AList.update_conv')

theorem check_in_at_most_once_witness:
  "map_of (tickets (demo_db OPaid PPaid [(''t1'', demo_ticket TActive False)])) ''t1'' =
     Some (demo_ticket TActive False) \<and>
   t_status (demo_ticket TActive False) = TActive \<and> \<not> t_checkedIn (demo_ticket TActive False) \<and>
   fst (checkInTicket 7000 ''t1'' ''staff'' (demo_db OPaid PPaid [(''t1'', demo_ticket TActive False)])) =
     Inr ((demo_ticket TActive False)\<lparr> t_checkedIn := True, t_checkedInAt := Some 7000,
            t_checkedInBy := Some ''staff'', t_status := TUsed \<rparr>) \<and>
   fst (checkInTicket 8000 ''t1'' ''staff2''
         (snd (checkInTicket 7000 ''t1'' ''staff''
                 (demo_db OPaid PPaid [(''t1'', demo_ticket TActive False)])))) =
     Inl (BadRequest ''Ticket is used'')"
proof -
  have h: "map_of (tickets (demo_db OPaid PPaid [(''t1'', demo_ticket TActive False)])) ''t1'' =
     Some (demo_ticket TActive False)"
    by (simp add: demo_db_def)
  have a: "t_status (demo_ticket TActive False) = TActive \<and> \<not> t_checkedIn (demo_ticket TActive False)"
    by (simp add: demo_ticket_def)
  let ?s = "demo_db OPaid PPaid [(''t1'', demo_ticket TActive False)]"
  from check_in_at_most_once [OF h, of 7000 "''staff''" 8000 "''staff2''"] a
  have e: "\<exists>s'. checkInTicket 7000 ''t1'' ''staff'' ?s =
     (Inr ((demo_ticket TActive False)\<lparr> t_checkedIn := True, t_checkedInAt := Some 7000,
            t_checkedInBy := Some ''staff'', t_status := TUsed \<rparr>), s')"
    "\<exists>s'. checkInTicket 8000 ''t1'' ''staff2'' (snd (checkInTicket 7000 ''t1'' ''staff'' ?s)) =
     (Inl (BadRequest ''Ticket is used''), s')"
    by blast+
  then have r1: "fst (checkInTicket 7000 ''t1'' ''staff''
                  (demo_db OPaid PPaid [(''t1'', demo_ticket TActive False)])) =
     Inr ((demo_ticket TActive False)\<lparr> t_checkedIn := True, t_checkedInAt := Some 7000,
            t_checkedInBy := Some ''staff'', t_status := TUsed \<rparr>)"
    and r2: "fst (checkInTicket 8000 ''t1'' ''staff2''
         (snd (checkInTicket 7000 ''t1'' ''staff''
                 (demo_db OPaid PPaid [(''t1'', demo_ticket TActive False)])))) =
     Inl (BadRequest ''Ticket is used'')"
    by (metis fst_conv)+
  show ?thesis using h a r1 r2 by blast
qed

subsection \<open>Ticket generation\<close>

lemma qrLoop_Some:
  "qrLoop env oid order user idx fs acc = (fs', Some r) \<Longrightarrow>
   r = acc @ map (newTicket env oid order user) idx \<and>
   fs' = fs @ map (\<lambda>i. qrFileName (ticketNumberAt env i)) idx"
proof (induction idx arbitrary: fs acc)
  case Nil
  then show ?case by simp
next
  case (Cons a idx)
  from Cons.prems have
    "qrLoop env oid order user idx (fs @ [qrFileName (ticketNumberAt env a)])
       (acc @ [newTicket env oid order user a]) = (fs', Some r)"
    by (simp split: if_splits)
  from Cons.IH [OF this] show ?case by simp
qed


lemma filter_new_tickets:
  "filter (\<lambda>(k, t). t_orderId t = oid) (map withPdf (map (newTicket env oid order user) idx))
   = map withPdf (map (newTicket env oid order user) idx)"
  by (induction idx) (auto simp: withPdf_def newTicket_def)

lemma generate_existing:
  assumes "map_of (orders s) oid = Some order"
      and "map_of (users s) (o_userId order) = Some user"
      and "map_of (events s) (o_eventId order) = Some event"
      and "ticketsOfOrder oid s \<noteq> []"
  shows "generateTicketsForOrder env oid s = (Inr (ticketsOfOrder oid s), s)"
  using assms by (simp add: generateTicketsForOrder_def)

lemma generate_again:
  assumes "generateTicketsForOrder env oid s = (Inr ts, s1)"
  shows "generateTicketsForOrder env' oid s1 = (Inr ts, s1)"
proof -
  from assms obtain order user event where
    o: "map_of (orders s) oid = Some order" and
    u: "map_of (users s) (o_userId order) = Some user" and
    e: "map_of (events s) (o_eventId order) = Some event"
    by (auto simp: generateTicketsForOrder_def split: option.splits)
  show ?thesis
  proof (cases "ticketsOfOrder oid s = []")
    case False
    from generate_existing [OF o u e False, of env] assms
    have eq: "ts = ticketsOfOrder oid s" "s1 = s" by simp_all
    show ?thesis unfolding eq by (rule generate_existing [OF o u e False])
  next
    case True
    let ?idx = "[0..<nat (o_quantity order)]"
    let ?new = "map withPdf (map (newTicket env oid order user) ?idx)"
    from assms o u e True have
      ts: "ts = ?new" and s1: "tickets s1 = tickets s @ ?new"
      and rest: "orders s1 = orders s" "users s1 = users s" "events s1 = events s"
      by (auto simp: generateTicketsForOrder_def Let_def split: prod.splits option.splits if_splits
               dest!: qrLoop_Some)
    have t1: "ticketsOfOrder oid s1 = ?new"
      using True s1 filter_new_tickets[of oid env order user ?idx]
      by (simp add: ticketsOfOrder_def)
    show ?thesis
    proof (cases "?idx = []")
      case False
      then have "ticketsOfOrder oid s1 \<noteq> []" using t1 by simp
      then show ?thesis using generate_existing[of s1 oid order user event env'] o u e rest t1 ts
        by simp
    next
      case True
      then show ?thesis using o u e rest t1 ts
        by (simp add: generateTicketsForOrder_def)
    qed
  qed
qed

text \<open>
  C8. Ticket generation is idempotent per order. When tickets exist for an order (whose
  user and event exist), \<^verbatim>\<open>generateTicketsForOrder\<close> returns exactly these tickets and
  leaves the store as it was: no ticket row, QR image or PDF is added. And after any
  call that returned tickets, generating again for the same order returns the same
  tickets and changes nothing.
\<close>

theorem generate_tickets_idempotent:
  "(map_of (orders s) oid = Some order \<and>
    map_of (users s) (o_userId order) = Some user \<and>
    map_of (events s) (o_eventId order) = Some event \<and>
    ticketsOfOrder oid s \<noteq> [] \<longrightarrow>
      generateTicketsForOrder env oid s = (Inr (ticketsOfOrder oid s), s)) \<and>
   (generateTicketsForOrder env oid s = (Inr ts, s1) \<longrightarrow>
      generateTicketsForOrder env' oid s1 = (Inr ts, s1))"
  using generate_existing generate_again by blast

theorem generate_tickets_idempotent_witness:
  "ticketsOfOrder demo_oid (demo_db OPaid PPaid [(''t1'', demo_ticket TActive False)]) \<noteq> [] \<and>
   generateTicketsForOrder (demo_env 5000) demo_oid
       (demo_db OPaid PPaid [(''t1'', demo_ticket TActive False)]) =
     (Inr [(''t1'', demo_ticket TActive False)],
      demo_db OPaid PPaid [(''t1'', demo_ticket TActive False)]) \<and>
   length (projr (fst (generateTicketsForOrder (demo_env 5000) demo_oid (demo_db OPaid PPaid [])))) = 3 \<and>
   generateTicketsForOrder (demo_env 9000) demo_oid
       (snd (generateTicketsForOrder (demo_env 5000) demo_oid (demo_db OPaid PPaid []))) =
     generateTicketsForOrder (demo_env 5000) demo_oid (demo_db OPaid PPaid [])"
proof -
  let ?s = "demo_db OPaid PPaid [(''t1'', demo_ticket TActive False)]"
  let ?fresh = "demo_db OPaid PPaid []"
  have h: "map_of (orders ?s) demo_oid = Some (demo_order OPaid)"
    "map_of (users ?s) (o_userId (demo_order OPaid)) = Some demo_user"
    "map_of (events ?s) (o_eventId (demo_order OPaid)) = Some (demo_event 7)"
    by (simp_all add: demo_db_def demo_order_def)
  have t: "ticketsOfOrder demo_oid ?s = [(''t1'', demo_ticket TActive False)]"
    by code_simp
  have g: "\<not> isl (fst (generateTicketsForOrder (demo_env 5000) demo_oid ?fresh))"
    "length (projr (fst (generateTicketsForOrder (demo_env 5000) demo_oid ?fresh))) = 3"
    by code_simp+
  then have c: "generateTicketsForOrder (demo_env 5000) demo_oid ?fresh =
      (Inr (projr (fst (generateTicketsForOrder (demo_env 5000) demo_oid ?fresh))),
       snd (generateTicketsForOrder (demo_env 5000) demo_oid ?fresh))"
    by (simp add: prod_eq_iff)
  from generate_tickets_idempotent [of ?s demo_oid "demo_order OPaid" demo_user "demo_event 7"
      "demo_env 5000"] h t
  have a: "generateTicketsForOrder (demo_env 5000) demo_oid ?s =
     (Inr [(''t1'', demo_ticket TActive False)], ?s)"
    by simp
  from generate_tickets_idempotent [of ?fresh demo_oid _ _ _ "demo_env 5000"
      "projr (fst (generateTicketsForOrder (demo_env 5000) demo_oid ?fresh))"
      "snd (generateTicketsForOrder (demo_env 5000) demo_oid ?fresh)" "demo_env 9000"] c
  have b: "generateTicketsForOrder (demo_env 9000) demo_oid
       (snd (generateTicketsForOrder (demo_env 5000) demo_oid ?fresh)) =
     generateTicketsForOrder (demo_env 5000) demo_oid ?fresh"
    by simp
  have c1: "ticketsOfOrder demo_oid ?s \<noteq> []" using t by simp
  show ?thesis by (rule conjI [OF c1 conjI [OF a conjI [OF g(2) b]]])
qed

subsection \<open>Rollback of a failed creation\<close>

text \<open>
  C4. When \<^verbatim>\<open>create\<close> has passed its checks and the payment gateway's invoice call fails,
  \<^verbatim>\<open>create\<close> throws BadRequest, no order row with the new id exists afterwards, and the
  event row (its available quota with it) is what it was before the call. The rest of
  the store is untouched as well.
\<close>

theorem create_rollback:
  assumes "map_of (events s) (dto_eventId dto) = Some event"
      and "e_status event = None \<or> e_status event = Some EPublished"
      and "e_startTime event = None \<or> (\<exists>t. e_startTime event = Some t \<and> ce_now cenv \<le> t)"
      and "dto_quantity dto \<le> e_quota event"
      and "map_of (payments s) (ce_orderId cenv) = None"
      and "ce_invoice cenv = None"
  shows "fst (create cenv userId dto s) = Inl (BadRequest ''Failed to create invoice/payment'') \<and>
         map_of (orders (snd (create cenv userId dto s))) (ce_orderId cenv) = None \<and>
         map_of (events (snd (create cenv userId dto s))) (dto_eventId dto) = Some event \<and>
         snd (create cenv userId dto s) = s\<lparr> orders := AList.delete (ce_orderId cenv) (orders s) \<rparr>"
proof -
  have "create cenv userId dto s =
           (Inl (BadRequest ''Failed to create invoice/payment''),
            s\<lparr> orders := AList.delete (ce_orderId cenv) (orders s) \<rparr>)"
    using assms
    by (auto simp add: create_def payments_create_def Let_def AList.update_conv' AList.update_triv
          AList.delete_update_same)
  then show ?thesis using assms(1) by (simp add: AList.delete_conv')
qed

theorem create_rollback_witness:
  "map_of (events empty_db) ''e1'' = Some (demo_event 10) \<and>
   fst (create (demo_create_env 1000 demo_oid None) ''u1''
          \<lparr> dto_eventId = ''e1'', dto_quantity = 4 \<rparr> empty_db) =
     Inl (BadRequest ''Failed to create invoice/payment'') \<and>
   snd (create (demo_create_env 1000 demo_oid None) ''u1''
          \<lparr> dto_eventId = ''e1'', dto_quantity = 4 \<rparr> empty_db) = empty_db"
proof -
  let ?dto = "\<lparr> dto_eventId = ''e1'', dto_quantity = 4 \<rparr>"
  let ?cenv = "demo_create_env 1000 demo_oid None"
  have h: "map_of (events empty_db) (dto_eventId ?dto) = Some (demo_event 10)"
    "e_status (demo_event 10) = None \<or> e_status (demo_event 10) = Some EPublished"
    "e_startTime (demo_event 10) = None \<or>
       (\<exists>t. e_startTime (demo_event 10) = Some t \<and> ce_now ?cenv \<le> t)"
    "dto_quantity ?dto \<le> e_quota (demo_event 10)"
    "map_of (payments empty_db) (ce_orderId ?cenv) = None"
    "ce_invoice ?cenv = None"
    by (simp_all add: empty_db_def demo_event_def demo_create_env_def)
  have "empty_db\<lparr> orders := AList.delete (ce_orderId ?cenv) (orders empty_db) \<rparr> = empty_db"
    by (simp add: empty_db_def)
  with create_rollback [OF h, of "''u1''"] h(1) show ?thesis by simp
qed

subsection \<open>What the services leave alone\<close>

lemma generate_frame:
  "orders (snd (generateTicketsForOrder env oid s)) = orders s"
  "events (snd (generateTicketsForOrder env oid s)) = events s"
  "users (snd (generateTicketsForOrder env oid s)) = users s"
  "payments (snd (generateTicketsForOrder env oid s)) = payments s"
  "emails (snd (generateTicketsForOrder env oid s)) = emails s"
  by (simp_all add: generateTicketsForOrder_def Let_def split: option.splits prod.splits)

lemma batchCancel_frame:
  "orders (batchCancelTickets n ids reason s) = orders s"
  "events (batchCancelTickets n ids reason s) = events s"
  "users (batchCancelTickets n ids reason s) = users s"
  "payments (batchCancelTickets n ids reason s) = payments s"
  "emails (batchCancelTickets n ids reason s) = emails s"
  "files (batchCancelTickets n ids reason s) = files s"
  by (simp_all add: batchCancelTickets_def)

lemma restoreQuota_frame:
  "orders (restoreQuota order s) = orders s"
  "users (restoreQuota order s) = users s"
  "payments (restoreQuota order s) = payments s"
  "tickets (restoreQuota order s) = tickets s"
  "emails (restoreQuota order s) = emails s"
  "files (restoreQuota order s) = files s"
  by (simp_all add: restoreQuota_def split: option.splits)

lemma postPaid_frame:
  "orders (postPaid env oid user event tks s) = orders s"
  "events (postPaid env oid user event tks s) = events s"
  "users (postPaid env oid user event tks s) = users s"
  "payments (postPaid env oid user event tks s) = payments s"
proof -
  obtain r s' where g: "generateTicketsForOrder env oid s = (r, s')"
    by (cases "generateTicketsForOrder env oid s")
  have f: "orders s' = orders s" "events s' = events s" "users s' = users s"
    "payments s' = payments s"
    using generate_frame [of env oid s] g by simp_all
  show "orders (postPaid env oid user event tks s) = orders s"
    "events (postPaid env oid user event tks s) = events s"
    "users (postPaid env oid user event tks s) = users s"
    "payments (postPaid env oid user event tks s) = payments s"
    using g f by (auto simp: postPaid_def split: sum.splits option.splits)
qed

lemma updateStatus_orders:
  "orders (snd (updateStatus env oid st s)) =
     (case map_of (orders s) oid of
        None \<Rightarrow> orders s
      | Some order \<Rightarrow>
          if o_status order = st then orders s
          else AList.update oid (order\<lparr> o_status := st \<rparr>) (orders s))"
  by (simp add: updateStatus_def Let_def postPaid_frame batchCancel_frame restoreQuota_frame
        split: option.splits)

lemma updateStatus_events:
  "events (snd (updateStatus env oid st s)) =
     (case map_of (orders s) oid of
        None \<Rightarrow> events s
      | Some order \<Rightarrow>
          if o_status order \<noteq> st \<and> (st = OCancelled \<or> st = OExpired) \<and>
             prePayment (o_status order)
          then events (restoreQuota order s)
          else events s)"
  by (simp add: updateStatus_def Let_def postPaid_frame batchCancel_frame prePayment_def
        split: option.splits)

lemma updateStatus_result:
  "fst (updateStatus env oid st s) =
     (case map_of (orders s) oid of
        None \<Rightarrow> Inl (NotFound (''Order with ID '' @ quoted oid @ '' not found''))
      | Some order \<Rightarrow> Inr (order\<lparr> o_status := st \<rparr>))"
  by (simp add: updateStatus_def Let_def split: option.splits)

lemma updateStatus_orders_other:
  "k \<noteq> oid \<Longrightarrow> map_of (orders (snd (updateStatus env k st s))) oid = map_of (orders s) oid"
  by (simp add: updateStatus_orders AList.update_conv' split: option.splits)

lemma expireOne_orders:
  "orders (expireOne env s0 ko s) = orders (snd (updateStatus env (fst ko) OExpired s))"
proof -
  obtain r s1 where us: "updateStatus env (fst ko) OExpired s = (r, s1)"
    by (cases "updateStatus env (fst ko) OExpired s")
  show ?thesis
    by (cases r; cases "map_of (users s0) (o_userId (snd ko))";
        cases "map_of (events s0) (o_eventId (snd ko))")
       (simp_all add: expireOne_def us)
qed

lemma expireOne_events:
  "events (expireOne env s0 ko s) = events (snd (updateStatus env (fst ko) OExpired s))"
proof -
  obtain r s1 where us: "updateStatus env (fst ko) OExpired s = (r, s1)"
    by (cases "updateStatus env (fst ko) OExpired s")
  show ?thesis
    by (cases r; cases "map_of (users s0) (o_userId (snd ko))";
        cases "map_of (events s0) (o_eventId (snd ko))")
       (simp_all add: expireOne_def us)
qed

subsection \<open>The quota invariant\<close>

lemma reserved_nonneg: "0 \<le> o_quantity row \<Longrightarrow> 0 \<le> reserved e row"
  by (simp add: reserved_def)

lemma held_update:
  "held (AList.update k new al) e =
     held al e - (case map_of al k of None \<Rightarrow> 0 | Some old \<Rightarrow> reserved e old) + reserved e new"
  by (induction al) (auto simp: held_def)

lemma held_delete_le:
  "list_all (\<lambda>kr. 0 \<le> o_quantity (snd kr)) al \<Longrightarrow> held (AList.delete k al) e \<le> held al e"
proof (induction al)
  case Nil
  then show ?case by (simp add: held_def)
next
  case (Cons a al)
  then have "0 \<le> reserved e (snd a)" by (simp add: reserved_nonneg)
  with Cons show ?case by (auto simp: held_def)
qed

lemma list_all_update:
  "list_all P al \<Longrightarrow> P (k, v) \<Longrightarrow> list_all P (AList.update k v al)"
  by (induction al) auto

lemma list_all_delete:
  "list_all P al \<Longrightarrow> list_all P (AList.delete k al)"
  by (simp add: AList.delete_eq list_all_iff)

lemma list_all_map_of:
  "list_all P al \<Longrightarrow> map_of al k = Some v \<Longrightarrow> P (k, v)"
  by (auto simp: list_all_iff dest: map_of_SomeD)

lemma quota_inv_iff:
  "quota_inv Q0 s \<longleftrightarrow>
     list_all (\<lambda>kr. 0 \<le> o_quantity (snd kr)) (orders s) \<and>
     (\<forall>e ev. map_of (events s) e = Some ev \<longrightarrow>
        0 \<le> e_quota ev \<and> e_quota ev + held (orders s) e \<le> Q0 e)"
proof -
  have "\<And>e ev. map_of (events s) e = Some ev \<Longrightarrow> e \<in> fst ` set (events s)"
    by (metis domI dom_map_of_conv_image_fst)
  then show ?thesis
    unfolding quota_inv_def list_all_iff
    by (auto split: option.splits) fastforce+
qed

lemma quota_inv_cong:
  "orders s' = orders s \<Longrightarrow> events s' = events s \<Longrightarrow> quota_inv Q0 s' = quota_inv Q0 s"
  by (simp add: quota_inv_iff)

text \<open>Moving an order to a status that holds no inventory, with the release
  \<^verbatim>\<open>updateStatus\<close> performs, keeps the invariant.\<close>

lemma updateStatus_quota_inv:
  assumes inv: "quota_inv Q0 s" and st: "\<not> prePayment st"
  shows "quota_inv Q0 (snd (updateStatus env oid st s))"
proof (cases "map_of (orders s) oid")
  case None
  then show ?thesis using inv
    by (simp add: quota_inv_iff updateStatus_orders updateStatus_events)
next
  case (Some order)
  note nn = inv [unfolded quota_inv_iff, THEN conjunct1]
  note ev = inv [unfolded quota_inv_iff, THEN conjunct2, rule_format]
  have q: "0 \<le> o_quantity order"
    using list_all_map_of [OF nn Some] by simp
  show ?thesis
  proof (cases "o_status order = st")
    case True
    with Some inv show ?thesis
      by (simp add: quota_inv_iff updateStatus_orders updateStatus_events)
  next
    case False
    let ?new = "order\<lparr> o_status := st \<rparr>"
    have o': "orders (snd (updateStatus env oid st s)) = AList.update oid ?new (orders s)"
      using Some False by (simp add: updateStatus_orders)
    have r0: "\<And>e. reserved e ?new = 0" using st by (simp add: reserved_def)
    have h': "\<And>e. held (orders (snd (updateStatus env oid st s))) e
                = held (orders s) e - reserved e order"
      by (simp add: o' held_update Some r0)
    have nn': "list_all (\<lambda>kr. 0 \<le> o_quantity (snd kr)) (orders (snd (updateStatus env oid st s)))"
      unfolding o' using nn q by (intro list_all_update) simp_all
    show ?thesis
    proof (cases "(st = OCancelled \<or> st = OExpired) \<and> prePayment (o_status order)")
      case release: True
      show ?thesis
      proof (cases "map_of (events s) (o_eventId order)")
        case None
        then have e': "events (snd (updateStatus env oid st s)) = events s"
          using Some by (simp add: updateStatus_events restoreQuota_def)
        show ?thesis unfolding quota_inv_iff
        proof (intro conjI allI impI)
          fix e ev assume "map_of (events (snd (updateStatus env oid st s))) e = Some ev"
          then have m: "map_of (events s) e = Some ev" by (simp add: e')
          have "0 \<le> reserved e order" using q by (rule reserved_nonneg)
          with ev [OF m] show "0 \<le> e_quota ev" 
            and "e_quota ev + held (orders (snd (updateStatus env oid st s))) e \<le> Q0 e"
            by (simp_all add: h')
        qed (rule nn')
      next
        case (Some event)
        let ?eid = "o_eventId order"
        let ?ev' = "event\<lparr> e_quota := e_quota event + o_quantity order \<rparr>"
        have e': "events (snd (updateStatus env oid st s)) = AList.update ?eid ?ev' (events s)"
          using \<open>map_of (orders s) oid = Some order\<close> False release Some
          by (simp add: updateStatus_events restoreQuota_def)
        show ?thesis unfolding quota_inv_iff
        proof (intro conjI allI impI)
          fix e ev assume a: "map_of (events (snd (updateStatus env oid st s))) e = Some ev"
          show "0 \<le> e_quota ev"
            and "e_quota ev + held (orders (snd (updateStatus env oid st s))) e \<le> Q0 e"
          proof -
            have "0 \<le> e_quota ev \<and>
                  e_quota ev + held (orders (snd (updateStatus env oid st s))) e \<le> Q0 e"
            proof (cases "e = ?eid")
              case True
              with a have "ev = ?ev'" by (simp add: e' AList.update_conv')
              moreover have "reserved ?eid order = o_quantity order"
                using release by (simp add: reserved_def)
              ultimately show ?thesis using ev [OF Some] q True by (simp add: h')
            next
              case False
              with a have m: "map_of (events s) e = Some ev" by (simp add: e' AList.update_conv')
              have "reserved e order = 0" using False by (auto simp: reserved_def)
              with ev [OF m] show ?thesis by (simp add: h')
            qed
            then show "0 \<le> e_quota ev"
              and "e_quota ev + held (orders (snd (updateStatus env oid st s))) e \<le> Q0 e"
              by simp_all
          qed
        qed (rule nn')
      qed
    next
      case norelease: False
      have e': "events (snd (updateStatus env oid st s)) = events s"
        using Some norelease by (auto simp add: updateStatus_events)
      have z: "\<And>e. 0 \<le> reserved e order" using q by (rule reserved_nonneg)
      show ?thesis unfolding quota_inv_iff
      proof (intro conjI allI impI)
        fix e ev assume "map_of (events (snd (updateStatus env oid st s))) e = Some ev"
        then have m: "map_of (events s) e = Some ev" by (simp add: e')
        from ev [OF m] z [of e] show "0 \<le> e_quota ev"
          and "e_quota ev + held (orders (snd (updateStatus env oid st s))) e \<le> Q0 e"
          by (simp_all add: h')
      qed (rule nn')
    qed
  qed
qed

lemma create_cases:
  "snd (create cenv u dto s) = s \<or>
   (\<exists>event. map_of (events s) (dto_eventId dto) = Some event \<and>
      dto_quantity dto \<le> e_quota event \<and>
      (events (snd (create cenv u dto s)) = events s \<and>
       orders (snd (create cenv u dto s)) = AList.delete (ce_orderId cenv) (orders s) \<or>
       events (snd (create cenv u dto s)) =
         AList.update (dto_eventId dto)
           (event\<lparr> e_quota := e_quota event - dto_quantity dto \<rparr>) (events s) \<and>
       (\<exists>row. orders (snd (create cenv u dto s)) = AList.update (ce_orderId cenv) row (orders s) \<and>
          o_quantity row = dto_quantity dto \<and> o_eventId row = dto_eventId dto \<and>
          o_status row = OPending)))"
proof (cases "map_of (events s) (dto_eventId dto)")
  case None
  then show ?thesis by (simp add: create_def Let_def)
next
  case (Some event)
  show ?thesis
  proof (cases "(case e_status event of None \<Rightarrow> EPublished | Some st \<Rightarrow> st) \<noteq> EPublished \<or>
                (case e_startTime event of None \<Rightarrow> False | Some t \<Rightarrow> t < ce_now cenv) \<or>
                e_quota event < dto_quantity dto")
    case True
    then have "snd (create cenv u dto s) = s"
      using Some by (auto simp add: create_def Let_def)
    then show ?thesis ..
  next
    case False
    then have q: "dto_quantity dto \<le> e_quota event" by simp
    show ?thesis
    proof (cases "map_of (payments s) (ce_orderId cenv) = None \<and> ce_invoice cenv = None")
      case True
      with Some False have
        "snd (create cenv u dto s) = s\<lparr> orders := AList.delete (ce_orderId cenv) (orders s) \<rparr>"
        by (simp add: create_def payments_create_def Let_def AList.update_conv' AList.update_triv
              AList.delete_update_same)
      then show ?thesis using Some q by simp
    next
      case paid: False
      with Some False have
        "events (snd (create cenv u dto s)) =
           AList.update (dto_eventId dto)
             (event\<lparr> e_quota := e_quota event - dto_quantity dto \<rparr>) (events s)"
        "orders (snd (create cenv u dto s)) =
           AList.update (ce_orderId cenv)
             \<lparr> o_userId = u, o_eventId = dto_eventId dto, o_quantity = dto_quantity dto,
               o_unitPrice = e_price event, o_totalAmount = e_price event * dto_quantity dto,
               o_status = OPending, o_expiredAt = ce_now cenv + 3600 * 1000 \<rparr> (orders s)"
        by (auto simp add: create_def payments_create_def Let_def AList.update_conv'
              split: option.splits)
      then show ?thesis using Some q by auto
    qed
  qed
qed


lemma create_reserves:
  assumes "create cenv u dto s = (Inr r, s')"
  shows "\<exists>event. map_of (events s) (dto_eventId dto) = Some event \<and>
           dto_quantity dto \<le> e_quota event \<and>
           map_of (events s') (dto_eventId dto) =
             Some (event\<lparr> e_quota := e_quota event - dto_quantity dto \<rparr>)"
  using assms
  by (auto simp add: create_def payments_create_def Let_def AList.update_conv'
        split: option.splits if_splits)


lemma updateStatus_releases:
  assumes "map_of (orders s) oid = Some order" and "prePayment (o_status order)"
      and "st = OCancelled \<or> st = OExpired"
      and "map_of (events s) (o_eventId order) = Some event"
  shows "map_of (events (snd (updateStatus env oid st s))) (o_eventId order) =
           Some (event\<lparr> e_quota := e_quota event + o_quantity order \<rparr>)"
  using assms
  by (auto simp add: updateStatus_events restoreQuota_def prePayment_def AList.update_conv')


lemma create_quota_inv:
  assumes inv: "quota_inv Q0 s" and q: "0 \<le> dto_quantity dto"
  shows "quota_inv Q0 (snd (create cenv u dto s))"
proof -
  let ?s' = "snd (create cenv u dto s)"
  let ?eid = "dto_eventId dto"
  note nn = inv [unfolded quota_inv_iff, THEN conjunct1]
  note ev = inv [unfolded quota_inv_iff, THEN conjunct2, rule_format]
  from create_cases [of cenv u dto s] consider
      (same) "?s' = s"
    | (rollback) "events ?s' = events s" "orders ?s' = AList.delete (ce_orderId cenv) (orders s)"
    | (reserve) event row where "map_of (events s) ?eid = Some event"
        "dto_quantity dto \<le> e_quota event"
        "events ?s' = AList.update ?eid (event\<lparr> e_quota := e_quota event - dto_quantity dto \<rparr>) (events s)"
        "orders ?s' = AList.update (ce_orderId cenv) row (orders s)"
        "o_quantity row = dto_quantity dto" "o_eventId row = ?eid" "o_status row = OPending"
    by blast
  then show ?thesis
  proof cases
    case same
    with inv show ?thesis by simp
  next
    case rollback
    show ?thesis unfolding quota_inv_iff rollback
    proof (intro conjI allI impI)
      show "list_all (\<lambda>kr. 0 \<le> o_quantity (snd kr)) (AList.delete (ce_orderId cenv) (orders s))"
        using nn by (rule list_all_delete)
    next
      fix e ev' assume m: "map_of (events s) e = Some ev'"
      from ev [OF m] held_delete_le [OF nn, of "ce_orderId cenv" e]
      show "0 \<le> e_quota ev'"
        and "e_quota ev' + held (AList.delete (ce_orderId cenv) (orders s)) e \<le> Q0 e"
        by simp_all
    qed
  next
    case reserve
    have old: "\<And>e. 0 \<le> (case map_of (orders s) (ce_orderId cenv) of
                           None \<Rightarrow> 0 | Some old \<Rightarrow> reserved e old)"
      using nn by (auto split: option.splits dest!: list_all_map_of intro: reserved_nonneg)
    show ?thesis unfolding quota_inv_iff reserve(3,4)
    proof (intro conjI allI impI)
      show "list_all (\<lambda>kr. 0 \<le> o_quantity (snd kr)) (AList.update (ce_orderId cenv) row (orders s))"
        using nn q reserve(5) by (intro list_all_update) simp_all
    next
      fix e ev'
      assume a: "map_of (AList.update ?eid (event\<lparr> e_quota := e_quota event - dto_quantity dto \<rparr>)
                   (events s)) e = Some ev'"
      have "0 \<le> e_quota ev' \<and>
            e_quota ev' + held (AList.update (ce_orderId cenv) row (orders s)) e \<le> Q0 e"
      proof (cases "e = ?eid")
        case True
        with a have "ev' = event\<lparr> e_quota := e_quota event - dto_quantity dto \<rparr>"
          by (simp add: AList.update_conv')
        moreover have "reserved ?eid row = dto_quantity dto"
          using reserve by (simp add: reserved_def prePayment_def)
        ultimately show ?thesis
          using ev [OF reserve(1)] reserve(2) old [of ?eid] True by (simp add: held_update)
      next
        case False
        with a have m: "map_of (events s) e = Some ev'" by (simp add: AList.update_conv')
        have "reserved e row = 0" using False reserve(6) by (simp add: reserved_def)
        with ev [OF m] old [of e] show ?thesis by (simp add: held_update)
      qed
      then show "0 \<le> e_quota ev'"
        and "e_quota ev' + held (AList.update (ce_orderId cenv) row (orders s)) e \<le> Q0 e"
        by simp_all
    qed
  qed
qed


lemma cancel_cases:
  "snd (cancel env oid u s) = s \<or>
   snd (cancel env oid u s) = snd (updateStatus env oid OCancelled s) \<or>
   snd (cancel env oid u s) =
     (snd (updateStatus env oid OCancelled s))
       \<lparr> emails := emails (snd (updateStatus env oid OCancelled s)) @ [(OrderCancelledEmail, oid)] \<rparr>"
proof (cases "map_of (orders s) oid")
  case None
  then show ?thesis by (simp add: cancel_def)
next
  case (Some order)
  obtain r s1 where us: "updateStatus env oid OCancelled s = (r, s1)"
    by (cases "updateStatus env oid OCancelled s")
  show ?thesis
  proof (cases "o_userId order \<noteq> u \<or>
                (o_status order \<noteq> OPending \<and> o_status order \<noteq> OAwaitingPayment) \<or>
                (case map_of (payments s) oid of None \<Rightarrow> False
                 | Some payment \<Rightarrow> p_status payment = PPaid)")
    case True
    then have "snd (cancel env oid u s) = s" using Some by (auto simp add: cancel_def)
    then show ?thesis ..
  next
    case False
    then show ?thesis using Some
      by (cases r; cases "map_of (users s) (o_userId order)";
          cases "map_of (events s) (o_eventId order)")
         (simp_all add: cancel_def us)
  qed
qed

lemma cancel_quota_inv:
  assumes inv: "quota_inv Q0 s"
  shows "quota_inv Q0 (snd (cancel env oid u s))"
proof -
  let ?s1 = "snd (updateStatus env oid OCancelled s)"
  have i1: "quota_inv Q0 ?s1"
    using updateStatus_quota_inv [OF inv, of OCancelled env oid] by (simp add: prePayment_def)
  then have "quota_inv Q0 (?s1\<lparr> emails := emails ?s1 @ [(OrderCancelledEmail, oid)] \<rparr>)"
    by (simp add: quota_inv_iff)
  with cancel_cases [of env oid u s] inv i1 show ?thesis by auto
qed

lemma expireOne_quota_inv:
  assumes inv: "quota_inv Q0 s"
  shows "quota_inv Q0 (expireOne env s0 ko s)"
proof -
  obtain r s1 where us: "updateStatus env (fst ko) OExpired s = (r, s1)"
    by (cases "updateStatus env (fst ko) OExpired s")
  have i1: "quota_inv Q0 s1"
    using updateStatus_quota_inv [OF inv, of OExpired env "fst ko"] us by (simp add: prePayment_def)
  have "expireOne env s0 ko s = s1 \<or>
        expireOne env s0 ko s = s1\<lparr> emails := emails s1 @ [(OrderExpiredEmail, fst ko)] \<rparr>"
    by (simp add: expireOne_def us split: option.splits sum.splits)
  moreover have "quota_inv Q0 (s1\<lparr> emails := emails s1 @ [(OrderExpiredEmail, fst ko)] \<rparr>)"
    using i1 by (simp add: quota_inv_iff)
  ultimately show ?thesis using i1 by auto
qed


lemma expire_loop_quota_inv:
  "quota_inv Q0 st \<Longrightarrow> quota_inv Q0 (foldl (\<lambda>st ko. expireOne env s0 ko st) st xs)"
  by (induction xs arbitrary: st) (simp_all add: expireOne_quota_inv)


lemma expireOrders_quota_inv:
  "quota_inv Q0 s \<Longrightarrow> quota_inv Q0 (snd (expireOrders env s))"
  by (simp add: expireOrders_def Let_def expire_loop_quota_inv)


lemma refreshPayment_frame:
  "orders (refreshPayment n payload st s) = orders s"
  "events (refreshPayment n payload st s) = events s"
  "users (refreshPayment n payload st s) = users s"
  "tickets (refreshPayment n payload st s) = tickets s"
  "emails (refreshPayment n payload st s) = emails s"
  "files (refreshPayment n payload st s) = files s"
  by (simp_all add: refreshPayment_def Let_def split: option.splits)

text \<open>What an accepted webhook does: the payment is refreshed, the order is moved to the
  mapped status, and for a paid invoice ticket generation is called once more.\<close>

lemma processWebhook_accepted:
  assumes "uuidRegex_test (wh_external_id payload)"
      and "paymentStatusOfWebhook (wh_status payload) = Some nps"
      and "map_of (orders s) (wh_external_id payload) = Some order"
  shows "processWebhook tok env env2 payload tok s =
           (Inr (),
            if nps = PPaid
            then snd (generateTicketsForOrder env2 (wh_external_id payload)
                   (snd (updateStatus env (wh_external_id payload) (mapPaymentStatusToOrderStatus nps)
                           (refreshPayment (now env) payload nps s))))
            else snd (updateStatus env (wh_external_id payload) (mapPaymentStatusToOrderStatus nps)
                        (refreshPayment (now env) payload nps s)))"
proof -
  let ?u = "updateStatus env (wh_external_id payload) (mapPaymentStatusToOrderStatus nps)
              (refreshPayment (now env) payload nps s)"
  obtain r s2 where u: "?u = (r, s2)" by (cases ?u)
  have "fst ?u = Inr (order\<lparr> o_status := mapPaymentStatusToOrderStatus nps \<rparr>)"
    using assms(3) by (simp add: updateStatus_result refreshPayment_frame)
  with u have r: "r = Inr (order\<lparr> o_status := mapPaymentStatusToOrderStatus nps \<rparr>)" by simp
  have s2: "s2 = snd ?u" using u by simp
  have "processWebhook tok env env2 payload tok s =
          (Inr (),
           if nps = PPaid then snd (generateTicketsForOrder env2 (wh_external_id payload) s2)
           else s2)"
    using assms by (simp add: processWebhook_def Let_def u r)
  then show ?thesis unfolding s2 .
qed

lemma processWebhook_cases:
  "snd (processWebhook tok env env2 payload ctok s) = s \<or>
   (\<exists>nps. paymentStatusOfWebhook (wh_status payload) = Some nps \<and>
      snd (processWebhook tok env env2 payload ctok s) =
        (if nps = PPaid
         then snd (generateTicketsForOrder env2 (wh_external_id payload)
                (snd (updateStatus env (wh_external_id payload) (mapPaymentStatusToOrderStatus nps)
                        (refreshPayment (now env) payload nps s))))
         else snd (updateStatus env (wh_external_id payload) (mapPaymentStatusToOrderStatus nps)
                     (refreshPayment (now env) payload nps s))))"
proof (cases "ctok = tok \<and> uuidRegex_test (wh_external_id payload)")
  case False
  then have "snd (processWebhook tok env env2 payload ctok s) = s"
    by (auto simp add: processWebhook_def)
  then show ?thesis ..
next
  case True
  show ?thesis
  proof (cases "paymentStatusOfWebhook (wh_status payload)")
    case None
    then have "snd (processWebhook tok env env2 payload ctok s) = s"
      by (simp add: processWebhook_def)
    then show ?thesis ..
  next
    case (Some nps)
    show ?thesis
    proof (cases "map_of (orders s) (wh_external_id payload)")
      case None
      then have "snd (processWebhook tok env env2 payload ctok s) = s"
        using Some by (simp add: processWebhook_def)
      then show ?thesis ..
    next
      case (Some order)
      from processWebhook_accepted [OF _ \<open>paymentStatusOfWebhook (wh_status payload) = Some nps\<close> Some,
          of tok env env2] True
      show ?thesis using \<open>paymentStatusOfWebhook (wh_status payload) = Some nps\<close> by simp
    qed
  qed
qed

lemma webhook_expired_quota_inv:
  assumes inv: "quota_inv Q0 s" and x: "wh_status payload = XExpired"
  shows "quota_inv Q0 (snd (processWebhook tok env env2 payload ctok s))"
proof -
  let ?oid = "wh_external_id payload"
  have "quota_inv Q0 (refreshPayment (now env) payload PExpired s)"
    using inv by (simp add: quota_inv_iff refreshPayment_frame)
  from updateStatus_quota_inv [OF this, of OExpired env ?oid]
  have u: "quota_inv Q0 (snd (updateStatus env ?oid OExpired
                                (refreshPayment (now env) payload PExpired s)))"
    by (simp add: prePayment_def)
  from processWebhook_cases [of tok env env2 payload ctok s] x
  have "snd (processWebhook tok env env2 payload ctok s) = s \<or>
        snd (processWebhook tok env env2 payload ctok s) =
          snd (updateStatus env ?oid OExpired (refreshPayment (now env) payload PExpired s))"
    by (auto simp add: paymentStatusOfWebhook_def mapPaymentStatusToOrderStatus_def)
  then show ?thesis using inv u by auto
qed

lemma step_quota_inv:
  "quota_inv Q0 s \<Longrightarrow> order_operation x \<Longrightarrow> quantity_not_negative x \<Longrightarrow>
   quota_inv Q0 (step tok s x)"
  by (cases x)
     (simp_all add: create_quota_inv cancel_quota_inv webhook_expired_quota_inv
        expireOrders_quota_inv)

lemma run_quota_inv:
  "quota_inv Q0 s \<Longrightarrow> list_all order_operation ops \<Longrightarrow> list_all quantity_not_negative ops \<Longrightarrow>
   quota_inv Q0 (run tok ops s)"
  unfolding run_def
  by (induction ops arbitrary: s) (simp_all add: step_quota_inv)

text \<open>A cancel that is let through moves the order to cancelled and releases its
  quantity.\<close>

lemma cancel_releases:
  assumes o: "map_of (orders s) oid = Some order" and w: "o_userId order = userId"
      and pre: "prePayment (o_status order)"
      and np: "case map_of (payments s) oid of None \<Rightarrow> True | Some payment \<Rightarrow> p_status payment \<noteq> PPaid"
      and ev: "map_of (events s) (o_eventId order) = Some ev0"
  shows "fst (cancel env oid userId s) = Inr ''Order cancelled successfully'' \<and>
         map_of (orders (snd (cancel env oid userId s))) oid = Some (order\<lparr> o_status := OCancelled \<rparr>) \<and>
         map_of (events (snd (cancel env oid userId s))) (o_eventId order) =
           Some (ev0\<lparr> e_quota := e_quota ev0 + o_quantity order \<rparr>)"
proof -
  let ?u = "updateStatus env oid OCancelled s"
  obtain r s1 where us: "?u = (r, s1)" by (cases ?u)
  have "fst ?u = Inr (order\<lparr> o_status := OCancelled \<rparr>)"
    using o by (simp add: updateStatus_result)
  with us have r: "r = Inr (order\<lparr> o_status := OCancelled \<rparr>)" by simp
  have s1: "s1 = snd ?u" using us by simp
  have guard: "\<not> (case map_of (payments s) oid of None \<Rightarrow> False
                    | Some payment \<Rightarrow> p_status payment = PPaid)"
    using np by (simp split: option.splits)
  have c: "cancel env oid userId s = (Inr ''Order cancelled successfully'', s1) \<or>
           cancel env oid userId s =
             (Inr ''Order cancelled successfully'',
              s1\<lparr> emails := emails s1 @ [(OrderCancelledEmail, oid)] \<rparr>)"
    using o w pre guard
    by (cases "map_of (users s) (o_userId order)"; cases "map_of (events s) (o_eventId order)")
       (auto simp add: cancel_def us r prePayment_def)
  have o1: "map_of (orders s1) oid = Some (order\<lparr> o_status := OCancelled \<rparr>)"
    unfolding s1 using o pre
    by (auto simp add: updateStatus_orders AList.update_conv' prePayment_def)
  have e1: "map_of (events s1) (o_eventId order) =
              Some (ev0\<lparr> e_quota := e_quota ev0 + o_quantity order \<rparr>)"
    unfolding s1 using o pre ev by (intro updateStatus_releases) simp_all
  from c o1 e1 show ?thesis by auto
qed

text \<open>A valid webhook reporting EXPIRED for a pre-payment order moves it to expired and
  releases its quantity.\<close>

lemma webhook_expired_releases:
  assumes o: "map_of (orders s) (wh_external_id payload) = Some order"
      and pre: "prePayment (o_status order)"
      and x: "wh_status payload = XExpired"
      and v: "uuidRegex_test (wh_external_id payload)"
      and ev: "map_of (events s) (o_eventId order) = Some ev0"
  shows "fst (processWebhook tok env env2 payload tok s) = Inr () \<and>
         map_of (orders (snd (processWebhook tok env env2 payload tok s))) (wh_external_id payload) =
           Some (order\<lparr> o_status := OExpired \<rparr>) \<and>
         map_of (events (snd (processWebhook tok env env2 payload tok s))) (o_eventId order) =
           Some (ev0\<lparr> e_quota := e_quota ev0 + o_quantity order \<rparr>)"
proof -
  let ?oid = "wh_external_id payload"
  let ?r = "refreshPayment (now env) payload PExpired s"
  have xs: "paymentStatusOfWebhook (wh_status payload) = Some PExpired"
    using x by (simp add: paymentStatusOfWebhook_def)
  have w: "processWebhook tok env env2 payload tok s = (Inr (), snd (updateStatus env ?oid OExpired ?r))"
    using processWebhook_accepted [OF v xs o, of tok env env2]
    by (simp add: mapPaymentStatusToOrderStatus_def)
  have ro: "map_of (orders ?r) ?oid = Some order"
    and re: "map_of (events ?r) (o_eventId order) = Some ev0"
    using o ev by (simp_all add: refreshPayment_frame)
  have o1: "map_of (orders (snd (updateStatus env ?oid OExpired ?r))) ?oid =
              Some (order\<lparr> o_status := OExpired \<rparr>)"
    using ro pre by (auto simp add: updateStatus_orders AList.update_conv' prePayment_def)
  have e1: "map_of (events (snd (updateStatus env ?oid OExpired ?r))) (o_eventId order) =
              Some (ev0\<lparr> e_quota := e_quota ev0 + o_quantity order \<rparr>)"
    using ro pre re by (intro updateStatus_releases) simp_all
  show ?thesis unfolding w using o1 e1 by simp
qed

text \<open>The sweep releases, for every event, the quantities of its pending orders past
  their deadline.\<close>

lemma restoreQuota_lookup:
  "map_of (events (restoreQuota row st)) e =
     map_option (\<lambda>ev. ev\<lparr> e_quota := e_quota ev + (if o_eventId row = e then o_quantity row else 0) \<rparr>)
       (map_of (events st) e)"
  by (cases "map_of (events st) e")
     (auto simp add: restoreQuota_def AList.update_conv' split: option.splits)

lemma expire_loop_events:
  assumes "distinct (map fst xs)"
      and "\<forall>ko \<in> set xs. map_of (orders st) (fst ko) = Some (snd ko) \<and> o_status (snd ko) = OPending"
  shows "map_of (events (foldl (\<lambda>st ko. expireOne env s0 ko st) st xs)) e =
           map_option
             (\<lambda>ev. ev\<lparr> e_quota := e_quota ev +
                       sum_list (map (\<lambda>ko. if o_eventId (snd ko) = e then o_quantity (snd ko) else 0) xs) \<rparr>)
             (map_of (events st) e)"
  using assms
proof (induction xs arbitrary: st)
  case Nil
  show ?case by (cases "map_of (events st) e") simp_all
next
  case (Cons ko xs)
  let ?st' = "expireOne env s0 ko st"
  from Cons.prems have k: "map_of (orders st) (fst ko) = Some (snd ko)"
    and p: "o_status (snd ko) = OPending"
    by simp_all
  have ev': "map_of (events ?st') e =
      map_option (\<lambda>ev. ev\<lparr> e_quota := e_quota ev +
                    (if o_eventId (snd ko) = e then o_quantity (snd ko) else 0) \<rparr>)
        (map_of (events st) e)"
    using k p
    by (simp add: expireOne_events updateStatus_events prePayment_def restoreQuota_lookup)
  have rest: "\<forall>ko' \<in> set xs. map_of (orders ?st') (fst ko') = Some (snd ko') \<and>
                o_status (snd ko') = OPending"
  proof
    fix ko' assume m: "ko' \<in> set xs"
    with Cons.prems(1) have "fst ko \<noteq> fst ko'" by auto
    then have "map_of (orders ?st') (fst ko') = map_of (orders st) (fst ko')"
      by (simp add: expireOne_orders updateStatus_orders_other)
    with Cons.prems(2) m show "map_of (orders ?st') (fst ko') = Some (snd ko') \<and>
                o_status (snd ko') = OPending" by simp
  qed
  from Cons.prems(1) have d: "distinct (map fst xs)" by simp
  show ?case
    using Cons.IH [OF d rest]
    by (cases "map_of (events st) e") (simp_all add: ev' add.assoc)
qed

lemma sum_list_filter_if:
  "sum_list (map f (filter P xs)) = sum_list (map (\<lambda>x. if P x then f x else (0::int)) xs)"
  by (induction xs) simp_all

lemma sweep_releases:
  assumes d: "distinct (map fst (orders s))" and ev: "map_of (events s) e = Some ev0"
  shows "map_of (events (snd (expireOrders env s))) e =
           Some (ev0\<lparr> e_quota := e_quota ev0 + released_by_sweep (now env) e (orders s) \<rparr>)"
proof -
  let ?P = "\<lambda>(k, row). o_status row = OPending \<and> o_expiredAt row < now env"
  let ?xs = "filter ?P (orders s)"
  have dx: "distinct (map fst ?xs)" using d by (rule distinct_map_filter)
  have m: "\<forall>ko \<in> set ?xs. map_of (orders s) (fst ko) = Some (snd ko) \<and> o_status (snd ko) = OPending"
  proof
    fix ko assume "ko \<in> set ?xs"
    then have "(fst ko, snd ko) \<in> set (orders s)" and "o_status (snd ko) = OPending"
      by (auto split: prod.splits)
    with d show "map_of (orders s) (fst ko) = Some (snd ko) \<and> o_status (snd ko) = OPending"
      by (simp add: map_of_is_SomeI)
  qed
  have "sum_list (map (\<lambda>ko. if o_eventId (snd ko) = e then o_quantity (snd ko) else 0) ?xs) =
        released_by_sweep (now env) e (orders s)"
    unfolding released_by_sweep_def sweepable_def sum_list_filter_if
    by (intro arg_cong [where f = sum_list] map_cong refl) (auto split: prod.splits)
  with expire_loop_events [OF dx m, of env s e] ev show ?thesis
    by (simp add: expireOrders_def Let_def)
qed

text \<open>
  C1, as the code has it. Start from a store in which every event's counter is not
  negative and, together with the inventory held by its pre-payment orders, within the
  event's original quota \<open>Q0\<close> (for an event without orders: the counter is its original
  quota). After any sequence of order operations (create, cancel, webhook-driven expire,
  sweeper expire) in which no create asks for a negative quantity, the counter of every
  event is not negative and does not exceed the original quota. A successful create has
  found at least the order quantity available and has decremented the counter by exactly
  the quantity. A cancellation or expiration from a pre-payment status increments the
  counter by exactly the order quantity: in \<^verbatim>\<open>updateStatus\<close>, in a cancel by the owner of an
  order whose payment is not paid, in a valid webhook reporting EXPIRED, and in the
  sweep, which (order ids being unique) adds the quantities of all pending orders of the
  event whose deadline has passed.
\<close>

theorem quota_invariant:
  "(quota_inv Q0 s \<and> list_all order_operation ops \<and> list_all quantity_not_negative ops \<and>
    map_of (events (run tok ops s)) eventId = Some event \<longrightarrow>
      0 \<le> e_quota event \<and> e_quota event \<le> Q0 eventId) \<and>
   (create cenv userId dto s = (Inr r, s') \<longrightarrow>
      (\<exists>ev. map_of (events s) (dto_eventId dto) = Some ev \<and>
         dto_quantity dto \<le> e_quota ev \<and>
         map_of (events s') (dto_eventId dto) =
           Some (ev\<lparr> e_quota := e_quota ev - dto_quantity dto \<rparr>))) \<and>
   (map_of (orders s) oid = Some order \<and> prePayment (o_status order) \<and>
    (st = OCancelled \<or> st = OExpired) \<and>
    map_of (events s) (o_eventId order) = Some ev0 \<longrightarrow>
      map_of (events (snd (updateStatus env oid st s))) (o_eventId order) =
        Some (ev0\<lparr> e_quota := e_quota ev0 + o_quantity order \<rparr>)) \<and>
   (map_of (orders s) oid = Some order \<and> o_userId order = owner \<and> prePayment (o_status order) \<and>
    (case map_of (payments s) oid of None \<Rightarrow> True | Some payment \<Rightarrow> p_status payment \<noteq> PPaid) \<and>
    map_of (events s) (o_eventId order) = Some ev0 \<longrightarrow>
      fst (cancel env oid owner s) = Inr ''Order cancelled successfully'' \<and>
      map_of (orders (snd (cancel env oid owner s))) oid = Some (order\<lparr> o_status := OCancelled \<rparr>) \<and>
      map_of (events (snd (cancel env oid owner s))) (o_eventId order) =
        Some (ev0\<lparr> e_quota := e_quota ev0 + o_quantity order \<rparr>)) \<and>
   (map_of (orders s) (wh_external_id payload) = Some order \<and> prePayment (o_status order) \<and>
    wh_status payload = XExpired \<and> uuidRegex_test (wh_external_id payload) \<and>
    map_of (events s) (o_eventId order) = Some ev0 \<longrightarrow>
      fst (processWebhook tok env envb payload tok s) = Inr () \<and>
      map_of (orders (snd (processWebhook tok env envb payload tok s))) (wh_external_id payload) =
        Some (order\<lparr> o_status := OExpired \<rparr>) \<and>
      map_of (events (snd (processWebhook tok env envb payload tok s))) (o_eventId order) =
        Some (ev0\<lparr> e_quota := e_quota ev0 + o_quantity order \<rparr>)) \<and>
   (distinct (map fst (orders s)) \<and> map_of (events s) swept = Some evs \<longrightarrow>
      map_of (events (snd (expireOrders env s))) swept =
        Some (evs\<lparr> e_quota := e_quota evs + released_by_sweep (now env) swept (orders s) \<rparr>))"
proof (intro conjI impI)
  assume a: "quota_inv Q0 s \<and> list_all order_operation ops \<and> list_all quantity_not_negative ops \<and>
    map_of (events (run tok ops s)) eventId = Some event"
  then have i: "quota_inv Q0 (run tok ops s)" by (simp add: run_quota_inv)
  note nn = i [unfolded quota_inv_iff, THEN conjunct1]
  have "0 \<le> held (orders (run tok ops s)) eventId"
    unfolding held_def using nn
    by (intro sum_list_nonneg) (auto simp: list_all_iff intro: reserved_nonneg)
  moreover from a have "map_of (events (run tok ops s)) eventId = Some event" by simp
  from i [unfolded quota_inv_iff, THEN conjunct2, rule_format, OF this]
  have "0 \<le> e_quota event \<and> e_quota event + held (orders (run tok ops s)) eventId \<le> Q0 eventId" .
  ultimately show "0 \<le> e_quota event" "e_quota event \<le> Q0 eventId"
    by simp_all
next
  assume "create cenv userId dto s = (Inr r, s')"
  then show "\<exists>ev. map_of (events s) (dto_eventId dto) = Some ev \<and>
         dto_quantity dto \<le> e_quota ev \<and>
         map_of (events s') (dto_eventId dto) =
           Some (ev\<lparr> e_quota := e_quota ev - dto_quantity dto \<rparr>)"
    by (rule create_reserves)
next
  assume "map_of (orders s) oid = Some order \<and> prePayment (o_status order) \<and>
    (st = OCancelled \<or> st = OExpired) \<and>
    map_of (events s) (o_eventId order) = Some ev0"
  then show "map_of (events (snd (updateStatus env oid st s))) (o_eventId order) =
        Some (ev0\<lparr> e_quota := e_quota ev0 + o_quantity order \<rparr>)"
    by (simp add: updateStatus_releases)
next
  assume a: "map_of (orders s) oid = Some order \<and> o_userId order = owner \<and>
    prePayment (o_status order) \<and>
    (case map_of (payments s) oid of None \<Rightarrow> True | Some payment \<Rightarrow> p_status payment \<noteq> PPaid) \<and>
    map_of (events s) (o_eventId order) = Some ev0"
  then have "fst (cancel env oid owner s) = Inr ''Order cancelled successfully'' \<and>
      map_of (orders (snd (cancel env oid owner s))) oid = Some (order\<lparr> o_status := OCancelled \<rparr>) \<and>
      map_of (events (snd (cancel env oid owner s))) (o_eventId order) =
        Some (ev0\<lparr> e_quota := e_quota ev0 + o_quantity order \<rparr>)"
    by (intro cancel_releases) simp_all
  then show "fst (cancel env oid owner s) = Inr ''Order cancelled successfully''"
    and "map_of (orders (snd (cancel env oid owner s))) oid = Some (order\<lparr> o_status := OCancelled \<rparr>)"
    and "map_of (events (snd (cancel env oid owner s))) (o_eventId order) =
        Some (ev0\<lparr> e_quota := e_quota ev0 + o_quantity order \<rparr>)"
    by simp_all
next
  assume a: "map_of (orders s) (wh_external_id payload) = Some order \<and> prePayment (o_status order) \<and>
    wh_status payload = XExpired \<and> uuidRegex_test (wh_external_id payload) \<and>
    map_of (events s) (o_eventId order) = Some ev0"
  then have "fst (processWebhook tok env envb payload tok s) = Inr () \<and>
      map_of (orders (snd (processWebhook tok env envb payload tok s))) (wh_external_id payload) =
        Some (order\<lparr> o_status := OExpired \<rparr>) \<and>
      map_of (events (snd (processWebhook tok env envb payload tok s))) (o_eventId order) =
        Some (ev0\<lparr> e_quota := e_quota ev0 + o_quantity order \<rparr>)"
    by (intro webhook_expired_releases) simp_all
  then show "fst (processWebhook tok env envb payload tok s) = Inr ()"
    and "map_of (orders (snd (processWebhook tok env envb payload tok s))) (wh_external_id payload) =
        Some (order\<lparr> o_status := OExpired \<rparr>)"
    and "map_of (events (snd (processWebhook tok env envb payload tok s))) (o_eventId order) =
        Some (ev0\<lparr> e_quota := e_quota ev0 + o_quantity order \<rparr>)"
    by simp_all
next
  assume "distinct (map fst (orders s)) \<and> map_of (events s) swept = Some evs"
  then show "map_of (events (snd (expireOrders env s))) swept =
        Some (evs\<lparr> e_quota := e_quota evs + released_by_sweep (now env) swept (orders s) \<rparr>)"
    by (simp add: sweep_releases)
qed

theorem quota_invariant_witness:
  "quota_inv (\<lambda>e. 10) (demo_db OPending PPending []) \<and>
   list_all order_operation demo_ops \<and> list_all quantity_not_negative demo_ops \<and>
   map_of (events (run ''secret'' demo_ops (demo_db OPending PPending []))) ''e1'' =
     Some (demo_event 10) \<and>
   0 \<le> e_quota (demo_event 10) \<and> e_quota (demo_event 10) \<le> 10 \<and>
   map_of (events (snd (create (demo_create_env 1000 demo_oid2 (Some demo_invoice)) ''u1''
                          \<lparr> dto_eventId = ''e1'', dto_quantity = 4 \<rparr>
                          (demo_db OPending PPending [])))) ''e1'' =
     Some ((demo_event 7)\<lparr> e_quota := 7 - 4 \<rparr>) \<and>
   map_of (events (snd (updateStatus (demo_env 2000) demo_oid OCancelled
                          (demo_db OPending PPending [])))) ''e1'' =
     Some ((demo_event 7)\<lparr> e_quota := 7 + 3 \<rparr>) \<and>
   map_of (events (snd (cancel (demo_env 2000) demo_oid ''u1'' (demo_db OPending PPending [])))) ''e1'' =
     Some ((demo_event 7)\<lparr> e_quota := 7 + 3 \<rparr>) \<and>
   map_of (events (snd (processWebhook ''secret'' (demo_env 2000) (demo_env 2000)
                          (demo_payload XExpired) ''secret'' (demo_db OPending PPending [])))) ''e1'' =
     Some ((demo_event 7)\<lparr> e_quota := 7 + 3 \<rparr>) \<and>
   released_by_sweep 99999999 ''e1'' (orders (demo_db OPending PPending [])) = 3 \<and>
   map_of (events (snd (expireOrders (demo_env 99999999) (demo_db OPending PPending [])))) ''e1'' =
     Some ((demo_event 7)\<lparr> e_quota := 7 + 3 \<rparr>)"
proof -
  let ?s = "demo_db OPending PPending []"
  let ?cenv = "demo_create_env 1000 demo_oid2 (Some demo_invoice)"
  let ?dto = "\<lparr> dto_eventId = ''e1'', dto_quantity = 4 \<rparr>"
  let ?p = "demo_payload XExpired"
  have h1: "quota_inv (\<lambda>e. 10) ?s" by code_simp
  have h2: "list_all order_operation demo_ops" "list_all quantity_not_negative demo_ops"
    by code_simp+
  have h3: "map_of (events (run ''secret'' demo_ops ?s)) ''e1'' = Some (demo_event 10)"
    by code_simp
  have "\<not> isl (fst (create ?cenv ''u1'' ?dto ?s))" by code_simp
  then have h4: "create ?cenv ''u1'' ?dto ?s =
      (Inr (projr (fst (create ?cenv ''u1'' ?dto ?s))), snd (create ?cenv ''u1'' ?dto ?s))"
    by (simp add: prod_eq_iff)
  have h5: "map_of (orders ?s) demo_oid = Some (demo_order OPending)"
    "prePayment (o_status (demo_order OPending))"
    "map_of (events ?s) (o_eventId (demo_order OPending)) = Some (demo_event 7)"
    "map_of (events ?s) ''e1'' = Some (demo_event 7)"
    "o_userId (demo_order OPending) = ''u1''"
    "case map_of (payments ?s) demo_oid of None \<Rightarrow> True | Some payment \<Rightarrow> p_status payment \<noteq> PPaid"
    "distinct (map fst (orders ?s))"
    by (simp_all add: demo_db_def demo_order_def demo_payment_def prePayment_def)
  have h6: "map_of (orders ?s) (wh_external_id ?p) = Some (demo_order OPending)"
    "wh_status ?p = XExpired"
    by (simp_all add: demo_db_def demo_payload_def)
  have h7: "uuidRegex_test (wh_external_id ?p)" by code_simp
  have h8: "released_by_sweep 99999999 ''e1'' (orders ?s) = 3" by code_simp
  have v: "o_eventId (demo_order OPending) = ''e1''" "o_quantity (demo_order OPending) = 3"
    "e_quota (demo_event 7) = 7" "now (demo_env 99999999) = 99999999"
    by (simp_all add: demo_order_def demo_event_def demo_env_def)
  note t = quota_invariant [where ?Q0.0 = "\<lambda>e. 10" and s = ?s and ops = demo_ops
      and tok = "''secret''" and eventId = "''e1''" and event = "demo_event 10"
      and cenv = ?cenv and userId = "''u1''" and dto = ?dto
      and r = "projr (fst (create ?cenv ''u1'' ?dto ?s))"
      and s' = "snd (create ?cenv ''u1'' ?dto ?s)"
      and oid = demo_oid and order = "demo_order OPending" and st = OCancelled
      and ?ev0.0 = "demo_event 7" and owner = "''u1''" and payload = ?p
      and envb = "demo_env 2000" and swept = "''e1''" and evs = "demo_event 7"]
  from t [where env = "demo_env 2000"] h1 h2 h3
  have a: "0 \<le> e_quota (demo_event 10) \<and> e_quota (demo_event 10) \<le> 10"
    by blast
  from t [where env = "demo_env 2000"] h4 h5(4)
  have b: "map_of (events (snd (create ?cenv ''u1'' ?dto ?s))) ''e1'' =
     Some ((demo_event 7)\<lparr> e_quota := 7 - 4 \<rparr>)"
    by (auto simp: v)
  from t [where env = "demo_env 2000"] h5(1-3)
  have c: "map_of (events (snd (updateStatus (demo_env 2000) demo_oid OCancelled ?s))) ''e1'' =
     Some ((demo_event 7)\<lparr> e_quota := 7 + 3 \<rparr>)"
    by (simp add: v)
  from t [where env = "demo_env 2000"] h5(1-3,5,6)
  have d: "map_of (events (snd (cancel (demo_env 2000) demo_oid ''u1'' ?s))) ''e1'' =
     Some ((demo_event 7)\<lparr> e_quota := 7 + 3 \<rparr>)"
    by (simp add: v)
  from t [where env = "demo_env 2000"] h5(2,3) h6 h7
  have e: "map_of (events (snd (processWebhook ''secret'' (demo_env 2000) (demo_env 2000) ?p
                                  ''secret'' ?s))) ''e1'' =
     Some ((demo_event 7)\<lparr> e_quota := 7 + 3 \<rparr>)"
    by (simp add: v)
  from t [where env = "demo_env 99999999"] h5(4,7)
  have f: "map_of (events (snd (expireOrders (demo_env 99999999) ?s))) ''e1'' =
     Some ((demo_event 7)\<lparr> e_quota := 7 + 3 \<rparr>)"
    by (simp add: v h8)
  from h1 h2 h3 a b c d e f h8 show ?thesis by blast
qed

text \<open>\<^verbatim>\<open>create\<close> lets a negative quantity through: on the store before any order, where the
  event's counter is at its original quota of 10, a create of \<open>-2\<close> places leaves the
  counter at 12.\<close>

theorem quota_invariant_counterexample:
  "orders empty_db = [] \<and>
   map_option e_quota (map_of (events empty_db) ''e1'') = Some 10 \<and>
   list_all order_operation demo_negative_ops \<and>
   map_option e_quota (map_of (events (run ''secret'' demo_negative_ops empty_db)) ''e1'') =
     Some 12"
  by code_simp

subsection \<open>Webhooks and the order status\<close>

lemma updateStatus_same:
  "map_of (orders s) oid = Some order \<Longrightarrow> o_status order = st \<Longrightarrow>
   updateStatus env oid st s = (Inr order, s)"
  by (simp add: updateStatus_def)

lemma updateStatus_plain:
  assumes "map_of (orders s) oid = Some order" and "o_status order \<noteq> st"
      and "st \<noteq> OPaid"
      and "\<not> ((st = OCancelled \<or> st = OExpired) \<and> prePayment (o_status order))"
  shows "updateStatus env oid st s =
           (Inr (order\<lparr> o_status := st \<rparr>),
            s\<lparr> orders := AList.update oid (order\<lparr> o_status := st \<rparr>) (orders s) \<rparr>)"
  using assms by (auto simp add: updateStatus_def Let_def prePayment_def)

text \<open>
  C5, as the code has it. A valid webhook reporting PENDING for an order in status
  pending or awaiting_payment refreshes the status of the linked payment and sets the
  order's status to pending: a pending order stays pending (the order table is not
  written), an awaiting_payment order becomes pending. Nothing else in the store changes.
\<close>

theorem webhook_pending:
  assumes "map_of (orders s) (wh_external_id payload) = Some order"
      and "o_status order = OPending \<or> o_status order = OAwaitingPayment"
      and "wh_status payload = XPending"
      and "uuidRegex_test (wh_external_id payload)"
  shows "processWebhook tok env env2 payload tok s =
           (Inr (),
            s\<lparr> payments :=
                 (case map_of (payments s) (wh_external_id payload) of
                    None \<Rightarrow> payments s
                  | Some payment \<Rightarrow>
                      AList.update (wh_external_id payload) (payment\<lparr> p_status := PPending \<rparr>)
                        (payments s)),
               orders :=
                 (if o_status order = OPending then orders s
                  else AList.update (wh_external_id payload) (order\<lparr> o_status := OPending \<rparr>)
                         (orders s)) \<rparr>)"
proof -
  let ?oid = "wh_external_id payload"
  let ?refreshed = "refreshPayment (now env) payload PPending s"
  have o: "map_of (orders ?refreshed) ?oid = Some order"
    using assms(1) by (simp add: refreshPayment_frame)
  have x: "paymentStatusOfWebhook (wh_status payload) = Some PPending"
    using assms(3) by (simp add: paymentStatusOfWebhook_def)
  have p: "processWebhook tok env env2 payload tok s =
             (Inr (), snd (updateStatus env ?oid OPending ?refreshed))"
    using processWebhook_accepted [OF assms(4) x assms(1), of tok env env2]
    by (simp add: mapPaymentStatusToOrderStatus_def)
  show ?thesis
  proof (cases "o_status order = OPending")
    case True
    from updateStatus_same [OF o True, of env] show ?thesis
      unfolding p using True by (simp add: refreshPayment_def split: option.splits)
  next
    case False
    with assms(2) have "\<not> ((OPending = OCancelled \<or> OPending = OExpired) \<and>
        prePayment (o_status order))" by simp
    from updateStatus_plain [OF o False _ this, of env] show ?thesis
      unfolding p using False
      by (simp add: refreshPayment_def split: option.splits)
  qed
qed

theorem webhook_pending_witness:
  "map_of (orders (demo_db OAwaitingPayment PPending [])) (wh_external_id (demo_payload XPending)) =
     Some (demo_order OAwaitingPayment) \<and>
   o_status (demo_order OAwaitingPayment) = OAwaitingPayment \<and>
   wh_status (demo_payload XPending) = XPending \<and>
   uuidRegex_test (wh_external_id (demo_payload XPending)) \<and>
   processWebhook ''secret'' (demo_env 5000) (demo_env 5000) (demo_payload XPending) ''secret''
       (demo_db OAwaitingPayment PPending []) =
     (Inr (), demo_db OPending PPending [])"
proof -
  let ?s = "demo_db OAwaitingPayment PPending []"
  let ?p = "demo_payload XPending"
  have h: "map_of (orders ?s) (wh_external_id ?p) = Some (demo_order OAwaitingPayment)"
    "o_status (demo_order OAwaitingPayment) = OPending \<or>
     o_status (demo_order OAwaitingPayment) = OAwaitingPayment"
    "wh_status ?p = XPending"
    by (simp_all add: demo_db_def demo_payload_def demo_order_def)
  have u: "uuidRegex_test (wh_external_id ?p)" by code_simp
  have e: "?s\<lparr> payments :=
                 (case map_of (payments ?s) (wh_external_id ?p) of
                    None \<Rightarrow> payments ?s
                  | Some payment \<Rightarrow>
                      AList.update (wh_external_id ?p) (payment\<lparr> p_status := PPending \<rparr>)
                        (payments ?s)),
               orders :=
                 (if o_status (demo_order OAwaitingPayment) = OPending then orders ?s
                  else AList.update (wh_external_id ?p)
                         ((demo_order OAwaitingPayment)\<lparr> o_status := OPending \<rparr>)
                         (orders ?s)) \<rparr> = demo_db OPending PPending []"
    by (simp add: demo_db_def demo_payload_def demo_order_def demo_payment_def)
  have a: "o_status (demo_order OAwaitingPayment) = OAwaitingPayment"
    by (simp add: demo_order_def)
  from webhook_pending [OF h u, of "''secret''" "demo_env 5000" "demo_env 5000"]
  have "processWebhook ''secret'' (demo_env 5000) (demo_env 5000) ?p ''secret'' ?s =
     (Inr (), demo_db OPending PPending [])"
    unfolding e .
  with h(1,3) u a show ?thesis by blast
qed

text \<open>An order in status awaiting_payment does not stay so under a PENDING webhook.\<close>

theorem webhook_pending_counterexample:
  "map_option o_status (map_of (orders (demo_db OAwaitingPayment PPending [])) demo_oid) =
     Some OAwaitingPayment \<and>
   map_option o_status
     (map_of (orders (snd (processWebhook ''secret'' (demo_env 5000) (demo_env 5000)
                             (demo_payload XPending) ''secret''
                             (demo_db OAwaitingPayment PPending [])))) demo_oid) =
     Some OPending"
  by code_simp

subsection \<open>What happens to a paid order\<close>

lemma expire_loop_orders_other:
  "\<forall>ko \<in> set xs. fst ko \<noteq> oid \<Longrightarrow>
   map_of (orders (foldl (\<lambda>st ko. expireOne env s0 ko st) st xs)) oid = map_of (orders st) oid"
  by (induction xs arbitrary: st) (simp_all add: expireOne_orders updateStatus_orders_other)

lemma sweep_keeps_paid:
  assumes o: "map_of (orders s) oid = Some order" and p: "o_status order = OPaid"
      and d: "distinct (map fst (orders s))"
  shows "map_of (orders (snd (expireOrders env s))) oid = Some order"
proof -
  let ?xs = "filter (\<lambda>(k, row). o_status row = OPending \<and> o_expiredAt row < now env) (orders s)"
  have "\<forall>ko \<in> set ?xs. fst ko \<noteq> oid"
  proof
    fix ko assume "ko \<in> set ?xs"
    then have m: "(fst ko, snd ko) \<in> set (orders s)" and st: "o_status (snd ko) = OPending"
      by (auto split: prod.splits)
    show "fst ko \<noteq> oid"
    proof
      assume "fst ko = oid"
      with m d have "map_of (orders s) oid = Some (snd ko)" by (metis map_of_is_SomeI)
      with o p st show False by simp
    qed
  qed
  from expire_loop_orders_other [OF this, of env s s] o show ?thesis
    by (simp add: expireOrders_def Let_def)
qed

lemma cancel_paid_order:
  assumes "map_of (orders s) oid = Some order" and "o_status order = OPaid"
  shows "cancel env oid userId s =
           (Inl (if o_userId order \<noteq> userId
                 then Forbidden ''You do not have permission to cancel this order''
                 else BadRequest (''Cannot cancel order with status '' @ quoted ''paid'')), s)"
  using assms by (simp add: cancel_def)

lemma webhook_paid_on_paid:
  assumes o: "map_of (orders s) (wh_external_id payload) = Some order" and p: "o_status order = OPaid"
      and x: "wh_status payload = XPaid"
  shows "orders (snd (processWebhook tok env env2 payload ctok s)) = orders s"
proof -
  let ?oid = "wh_external_id payload"
  have "orders (snd (generateTicketsForOrder env2 ?oid
          (snd (updateStatus env ?oid OPaid (refreshPayment (now env) payload PPaid s))))) = orders s"
    using o p by (simp add: generate_frame updateStatus_orders refreshPayment_frame)
  with processWebhook_cases [of tok env env2 payload ctok s] x show ?thesis
    by (auto simp add: paymentStatusOfWebhook_def mapPaymentStatusToOrderStatus_def)
qed

lemma webhook_moves_paid:
  assumes o: "map_of (orders s) (wh_external_id payload) = Some order" and p: "o_status order = OPaid"
      and u: "uuidRegex_test (wh_external_id payload)"
      and x: "paymentStatusOfWebhook (wh_status payload) = Some nps" and n: "nps \<noteq> PPaid"
  shows "map_of (orders (snd (processWebhook tok env env2 payload tok s))) (wh_external_id payload) =
           Some (order\<lparr> o_status := mapPaymentStatusToOrderStatus nps \<rparr>)"
    and "events (snd (processWebhook tok env env2 payload tok s)) = events s"
proof -
  have ne: "mapPaymentStatusToOrderStatus nps \<noteq> OPaid"
    using n by (cases nps) (simp_all add: mapPaymentStatusToOrderStatus_def)
  from processWebhook_accepted [OF u x o, of tok env env2] n
  have w: "snd (processWebhook tok env env2 payload tok s) =
           snd (updateStatus env (wh_external_id payload) (mapPaymentStatusToOrderStatus nps)
                  (refreshPayment (now env) payload nps s))"
    by simp
  show "map_of (orders (snd (processWebhook tok env env2 payload tok s))) (wh_external_id payload) =
           Some (order\<lparr> o_status := mapPaymentStatusToOrderStatus nps \<rparr>)"
    unfolding w using o p ne
    by (simp add: updateStatus_orders refreshPayment_frame AList.update_conv')
  show "events (snd (processWebhook tok env env2 payload tok s)) = events s"
    unfolding w using o p
    by (simp add: updateStatus_events refreshPayment_frame prePayment_def)
qed

text \<open>
  C3. The paid status is to be absorbing: no later operation may move a paid order to
  another status. The user cancel, the expiry sweep and a webhook reporting PAID keep it
  (\<open>cancel_paid_order\<close>, \<open>sweep_keeps_paid\<close>, \<open>webhook_paid_on_paid\<close>): each of these
  paths looks at the order's status before it calls \<^verbatim>\<open>updateStatus\<close>, or selects pending
  orders only. \<^verbatim>\<open>processWebhook\<close> does not (\<open>webhook_moves_paid\<close>). On the paid order of the
  demo store a valid webhook reporting EXPIRED leaves the order expired, and one
  reporting PENDING leaves it pending. And when the provider reports an order paid and
  then pending, its owner can cancel it: the order ends cancelled, its three places are
  back in the event's quota and its three tickets are cancelled.
\<close>

theorem paid_status_overwritten_by_webhook:
  "map_option o_status (map_of (orders (demo_db OPaid PPaid [])) demo_oid) = Some OPaid \<and>
   map_option o_status
     (map_of (orders (snd (processWebhook ''secret'' (demo_env 5000) (demo_env 5000)
                             (demo_payload XExpired) ''secret'' (demo_db OPaid PPaid [])))) demo_oid) =
     Some OExpired \<and>
   map_option o_status
     (map_of (orders (snd (processWebhook ''secret'' (demo_env 5000) (demo_env 5000)
                             (demo_payload XPending) ''secret'' (demo_db OPaid PPaid [])))) demo_oid) =
     Some OPending \<and>
   map_option o_status
     (map_of (orders (run ''secret'' (take 1 demo_unpay_ops) (demo_db OPending PPending []))) demo_oid) =
     Some OPaid \<and>
   map_option o_status
     (map_of (orders (run ''secret'' demo_unpay_ops (demo_db OPending PPending []))) demo_oid) =
     Some OCancelled \<and>
   map_option e_quota
     (map_of (events (run ''secret'' demo_unpay_ops (demo_db OPending PPending []))) ''e1'') =
     Some 10 \<and>
   map (t_status \<circ> snd) (tickets (run ''secret'' demo_unpay_ops (demo_db OPending PPending []))) =
     [TCancelled, TCancelled, TCancelled]"
  by code_simp

subsection \<open>Delivering the PAID webhook twice\<close>









end
